theory Spec2Isabelle
  imports Main "HOL-Library.AList" "HOL-Library.Sublist"
begin

section \<open>Python strings and dictionaries\<close>

text \<open>
  A Python \<open>str\<close> is modelled as a \<open>string\<close>; a \<open>char\<close> stands for a code point
  below 256.  \<open>isspace\<close> is \<open>str.isspace\<close> on that range: the characters that
  \<open>str.strip()\<close>, \<open>str.split()\<close> and the regular expression \<open>\s\<close> treat as white space.
\<close>

definition isspace :: "char \<Rightarrow> bool" where
  "isspace c = (let n = (of_char c :: nat) in
     (9 \<le> n \<and> n \<le> 13) \<or> (28 \<le> n \<and> n \<le> 32) \<or> n = 133 \<or> n = 160)"

definition newline :: char where
  "newline = CHR 0x0A"

definition semicolon :: char where
  "semicolon = CHR '';''"

text \<open>\<open>s.strip()\<close>: white space removed at both ends.\<close>

definition py_strip :: "string \<Rightarrow> string" where
  "py_strip s = rev (dropWhile isspace (rev (dropWhile isspace s)))"

text \<open>\<open>s.split(sep)\<close> for a one-character separator: never empty, \<open>''.split(sep) = ['']\<close>.\<close>

fun py_split :: "char \<Rightarrow> string \<Rightarrow> string list" where
  "py_split sep [] = [[]]"
| "py_split sep (c # cs) =
     (if c = sep then [] # py_split sep cs
      else (case py_split sep cs of
              [] \<Rightarrow> [[c]]
            | r # rs \<Rightarrow> (c # r) # rs))"

text \<open>\<open>sep.join(parts)\<close>, the inverse direction, used to state what \<open>py_split\<close> computes.\<close>

fun py_join :: "char \<Rightarrow> string list \<Rightarrow> string" where
  "py_join sep [] = []"
| "py_join sep [p] = p"
| "py_join sep (p # q # ps) = p @ sep # py_join sep (q # ps)"

text \<open>
  A \<open>dict\<close> with string keys is an association list in insertion order.  \<open>dict(pairs)\<close>
  stores the pairs one after the other; storing under a key that is already there replaces the
  value and keeps the key's position.
\<close>

type_synonym py_dict = "(string \<times> string) list"

definition dict_of :: "(string \<times> 'v) list \<Rightarrow> (string \<times> 'v) list" where
  "dict_of pairs = foldl (\<lambda>d (k, v). AList.update k v d) [] pairs"

section \<open>The flat-table parser\<close>

text \<open>
  \<^verbatim>\<open>
  def parse_response(text: str):
      lines = text.strip().split('\n')
      if len(lines) < 2:
          return None
      headers = lines[0].split(';')
      if len(lines) == 2:
          return dict(zip(headers, lines[1].split(';')))
      return [dict(zip(headers, line.split(';'))) for line in lines[1:]]
  \<close>
\<close>

datatype parsed = PNone | PDict py_dict | PList "py_dict list"

definition text_lines :: "string \<Rightarrow> string list" where
  "text_lines text = py_split newline (py_strip text)"

definition parse_response :: "string \<Rightarrow> parsed" where
  "parse_response text =
     (let lines = text_lines text in
      if length lines < 2 then PNone
      else let headers = py_split semicolon (lines ! 0) in
        if length lines = 2 then PDict (dict_of (zip headers (py_split semicolon (lines ! 1))))
        else PList (map (\<lambda>line. dict_of (zip headers (py_split semicolon line))) (drop 1 lines)))"

section \<open>Values, requests and responses\<close>

text \<open>
  The values that occur in the dictionaries of this program (query parameters, the crawl
  result): \<open>None\<close>, booleans, integers, strings and lists of strings.
\<close>

datatype pyval = VNone | VBool bool | VInt int | VStr string | VStrs "string list"

text \<open>\<open>d.get(k)\<close> on an insertion-ordered dictionary.\<close>

definition dict_get :: "(string \<times> 'v) list \<Rightarrow> string \<Rightarrow> 'v option" where
  "dict_get d k = map_of d k"

text \<open>\<open>str(n)\<close> for an integer: decimal digits, a minus sign for a negative number.\<close>

definition digit_char :: "nat \<Rightarrow> char" where
  "digit_char d = ''0123456789'' ! d"

fun str_nat :: "nat \<Rightarrow> string" where
  "str_nat n = (if n < 10 then [digit_char n]
                else str_nat (n div 10) @ [digit_char (n mod 10)])"

declare str_nat.simps [simp del]

definition str_int :: "int \<Rightarrow> string" where
  "str_int i = (if i < 0 then CHR ''-'' # str_nat (nat (- i)) else str_nat (nat i))"

text \<open>
  \<open>s.upper()\<close>.  The letters a to z go to A to Z.  A character outside ASCII has an upper-case
  form outside ASCII again (or, for the sharp s, the two letters SS); the only use of
  \<open>upper\<close> here is the search for the word ERROR, which no such form can be part of, and the
  model leaves these characters as they are.
\<close>

definition upper_char :: "char \<Rightarrow> char" where
  "upper_char c = (let n = (of_char c :: nat) in
     if 97 \<le> n \<and> n \<le> 122 then char_of (n - 32) else c)"

definition py_upper :: "string \<Rightarrow> string" where
  "py_upper s = map upper_char s"

text \<open>\<open>needle in hay\<close> for strings: \<open>needle\<close> occurs as a contiguous piece of \<open>hay\<close>.\<close>

definition py_in :: "string \<Rightarrow> string \<Rightarrow> bool" where
  "py_in needle hay = sublist needle hay"

text \<open>
  What \<open>requests.get\<close> is called with.  \<open>req_timeout = None\<close> is the library's default:
  no timeout, the call waits for as long as the server keeps the connection.
\<close>

record http_request =
  req_url :: string
  req_params :: "(string \<times> pyval) list"
  req_headers :: "(string \<times> string) list"
  req_timeout :: "nat option"
  req_allow_redirects :: bool

text \<open>
  What the call gives back: an exception with its description \<open>str(e)\<close>, or a response
  with its \<open>status_code\<close>, its \<open>reason\<close> phrase, its \<open>url\<close> (the address the response came
  from, as the library has prepared it and after the redirects) and its body \<open>text\<close>.
\<close>

datatype http_result = Raised string | Response nat string string string

type_synonym http = "http_request \<Rightarrow> http_result"

text \<open>The network that answers every request with the same result.\<close>

definition server_replying :: "http_result \<Rightarrow> http" where
  "server_replying r = (\<lambda>req. r)"

text \<open>
  \<open>response.raise_for_status()\<close>: an \<open>HTTPError\<close> for a status from 400 to 599, with the
  library's message \<open>"{status_code} Client Error: {reason} for url: {url}"\<close> (\<open>Server Error\<close>
  from 500 on) made of the response's own status, reason and \<open>url\<close>; nothing otherwise.
\<close>

definition raise_for_status :: "nat \<Rightarrow> string \<Rightarrow> string \<Rightarrow> string option" where
  "raise_for_status status_code reason response_url =
     (if 400 \<le> status_code \<and> status_code < 500
        then Some (str_nat status_code @ '' Client Error: '' @ reason @ '' for url: ''
                     @ response_url)
      else if 500 \<le> status_code \<and> status_code < 600
        then Some (str_nat status_code @ '' Server Error: '' @ reason @ '' for url: ''
                     @ response_url)
      else None)"

definition BASE_URL :: string where
  "BASE_URL = ''https://api.semrush.com/''"

definition BACKLINKS_URL :: string where
  "BACKLINKS_URL = ''https://api.semrush.com/analytics/v1/''"

definition SITE_AUDIT_URL :: string where
  "SITE_AUDIT_URL = ''https://api.semrush.com/reports/v1''"

text \<open>\<open>SEMRUSH_API_KEY = os.environ.get("SEMRUSH_API_KEY")\<close>: a string, or \<open>None\<close>.\<close>

definition key_param :: "string option \<Rightarrow> pyval" where
  "key_param key = (case key of None \<Rightarrow> VNone | Some k \<Rightarrow> VStr k)"

section \<open>The provider's flat-text interface\<close>

text \<open>
  \<^verbatim>\<open>
  def make_request(url: str, report_type: str, **kwargs):
      params = {'key': SEMRUSH_API_KEY, 'type': report_type, **kwargs}
      try:
          response = requests.get(url, params=params, timeout=30)
          if response.status_code == 200 and 'ERROR' not in response.text.upper():
              return parse_response(response.text)
      except:
          pass
      return None
  \<close>
\<close>

definition make_request_call ::
  "string option \<Rightarrow> string \<Rightarrow> string \<Rightarrow> (string \<times> pyval) list \<Rightarrow> http_request" where
  "make_request_call key url report_type kwargs =
     \<lparr> req_url = url,
       req_params = dict_of ([(''key'', key_param key), (''type'', VStr report_type)] @ kwargs),
       req_headers = [],
       req_timeout = Some 30,
       req_allow_redirects = True \<rparr>"

definition make_request ::
  "http \<Rightarrow> string option \<Rightarrow> string \<Rightarrow> string \<Rightarrow> (string \<times> pyval) list \<Rightarrow> parsed" where
  "make_request net key url report_type kwargs =
     (case net (make_request_call key url report_type kwargs) of
        Raised e \<Rightarrow> PNone
      | Response status_code reason response_url text \<Rightarrow>
          if status_code = 200 \<and> \<not> py_in ''ERROR'' (py_upper text)
          then parse_response text
          else PNone)"

section \<open>The on-page crawler\<close>

text \<open>
  What the HTML parser hands to the crawler, in the terms the crawler reads it:
  \<^item> \<open>doc_meta_desc\<close>: \<open>soup.find('meta', attrs={'name': 'description'})\<close>, \<open>None\<close> when there
    is no such tag, otherwise the tag's \<open>.get('content')\<close> (\<open>None\<close> when it has no such attribute);
  \<^item> \<open>doc_title\<close>: \<open>soup.find('title')\<close>, \<open>None\<close> when there is no title tag, otherwise the
    tag's \<open>.string\<close> (\<open>None\<close> when the tag does not hold exactly one string);
  \<^item> \<open>doc_h1\<close> to \<open>doc_h4\<close>: \<open>get_text(strip=True)\<close> of each heading of that level, in order;
  \<^item> \<open>doc_text\<close>: \<open>soup.get_text(separator=' ', strip=True)\<close> once the script, style, nav,
    footer and header elements are removed;
  \<^item> \<open>doc_images\<close>: \<open>img.get('alt')\<close> of each image that \<open>soup.find_all('img')\<close> finds after
    that removal, in order.
\<close>

record document =
  doc_meta_desc :: "string option option"
  doc_title :: "string option option"
  doc_h1 :: "string list"
  doc_h2 :: "string list"
  doc_h3 :: "string list"
  doc_h4 :: "string list"
  doc_text :: string
  doc_images :: "string option list"

text \<open>The HTML parser: a document, or the description of the exception it raised.\<close>

type_synonym html_parser = "string \<Rightarrow> string + document"

text \<open>Truth value of an optional string: \<open>None\<close> and the empty string are false.\<close>

definition truthy :: "string option \<Rightarrow> bool" where
  "truthy a = (case a of None \<Rightarrow> False | Some s \<Rightarrow> s \<noteq> [])"

definition opt_val :: "string option \<Rightarrow> pyval" where
  "opt_val a = (case a of None \<Rightarrow> VNone | Some s \<Rightarrow> VStr s)"

text \<open>\<open>re.sub(r'\s+', ' ', s)\<close>: every maximal run of white space becomes one blank.\<close>

function collapse_ws :: "string \<Rightarrow> string" where
  "collapse_ws [] = []"
| "collapse_ws (c # cs) =
     (if isspace c then CHR '' '' # collapse_ws (dropWhile isspace cs)
      else c # collapse_ws cs)"
  by pat_completeness auto
termination
  by (relation "measure length") (auto simp: length_dropWhile_le less_Suc_eq_le)

text \<open>\<open>s.split()\<close> without a separator: the maximal runs of characters that are not white space.\<close>

function py_words :: "string \<Rightarrow> string list" where
  "py_words [] = []"
| "py_words (c # cs) =
     (if isspace c then py_words (dropWhile isspace cs)
      else (c # takeWhile (\<lambda>x. \<not> isspace x) cs) # py_words (dropWhile (\<lambda>x. \<not> isspace x) cs))"
  by pat_completeness auto
termination
  by (relation "measure length") (auto simp: length_dropWhile_le less_Suc_eq_le)

text \<open>\<open>d[k]\<close> read as an integer and as a string (0 and the empty string when it is neither).\<close>

definition int_field :: "(string \<times> pyval) list \<Rightarrow> string \<Rightarrow> int" where
  "int_field d k = (case dict_get d k of Some (VInt n) \<Rightarrow> n | _ \<Rightarrow> 0)"

definition str_field :: "(string \<times> pyval) list \<Rightarrow> string \<Rightarrow> string" where
  "str_field d k = (case dict_get d k of Some (VStr s) \<Rightarrow> s | _ \<Rightarrow> [])"

text \<open>
  \<^verbatim>\<open>
  def crawl_website_onpage(domain: str) -> Dict:
      try:
          url = domain if domain.startswith('http') else f'https://{domain}'
          headers = {'User-Agent': 'Mozilla/5.0 (Windows NT 10.0; Win64; x64) AppleWebKit/537.36'}
          response = requests.get(url, headers=headers, timeout=10, allow_redirects=True)
          response.raise_for_status()
          soup = BeautifulSoup(response.text, 'html.parser')
          ...
          return {'meta_description': meta_description, ..., 'crawl_success': True}
      except Exception as e:
          print(f"Crawl error: {str(e)}")
          return {'crawl_success': False, 'error': str(e)}
  \<close>
\<close>

definition crawl_url :: "string \<Rightarrow> string" where
  "crawl_url domain = (if prefix ''http'' domain then domain else ''https://'' @ domain)"

definition crawl_call :: "string \<Rightarrow> http_request" where
  "crawl_call domain =
     \<lparr> req_url = crawl_url domain,
       req_params = [],
       req_headers =
         [(''User-Agent'', ''Mozilla/5.0 (Windows NT 10.0; Win64; x64) AppleWebKit/537.36'')],
       req_timeout = Some 10,
       req_allow_redirects = True \<rparr>"

definition meta_desc_status :: "int \<Rightarrow> string" where
  "meta_desc_status len =
     (if 150 \<le> len \<and> len \<le> 160 then ''Good'' else ''Needs Fix'')"

definition title_status :: "int \<Rightarrow> string" where
  "title_status len =
     (if 50 \<le> len \<and> len \<le> 60 then ''Good'' else ''Needs Fix'')"

definition h1_status :: "int \<Rightarrow> string" where
  "h1_status n =
     (if n = 1 then ''Good'' else if n > 1 then ''Multiple'' else ''Missing'')"

definition content_status :: "int \<Rightarrow> string" where
  "content_status n =
     (if n \<ge> 1000 then ''Good'' else if n < 300 then ''Thin'' else ''Moderate'')"

text \<open>
  The local variables of the \<open>try\<close> block, each as a function of the parsed document:
  \<^verbatim>\<open>
  meta_description = meta_desc['content'] if meta_desc and meta_desc.get('content') else None
  meta_desc_length = len(meta_description) if meta_description else 0
  title = title_tag.string if title_tag else None
  title_length = len(title) if title else 0
  h1_count = len(h1_tags)
  text_content = re.sub(r'\s+', ' ', text_content)
  word_count = len(text_content.split())
  images_with_alt = [img for img in images if img.get('alt')]
  images_without_alt = len(images) - len(images_with_alt)
  \<close>
  A tag that was found counts as true, whatever it holds.
\<close>

definition meta_description :: "document \<Rightarrow> string option" where
  "meta_description doc =
     (case doc_meta_desc doc of
        None \<Rightarrow> None
      | Some content \<Rightarrow> if truthy content then content else None)"

definition meta_desc_length :: "document \<Rightarrow> int" where
  "meta_desc_length doc =
     (if truthy (meta_description doc) then int (length (the (meta_description doc))) else 0)"

definition title :: "document \<Rightarrow> string option" where
  "title doc = (case doc_title doc of None \<Rightarrow> None | Some s \<Rightarrow> s)"

definition title_length :: "document \<Rightarrow> int" where
  "title_length doc = (if truthy (title doc) then int (length (the (title doc))) else 0)"

definition h1_count :: "document \<Rightarrow> int" where
  "h1_count doc = int (length (doc_h1 doc))"

definition word_count :: "document \<Rightarrow> int" where
  "word_count doc = int (length (py_words (collapse_ws (doc_text doc))))"

definition images_with_alt :: "document \<Rightarrow> string option list" where
  "images_with_alt doc = filter truthy (doc_images doc)"

definition images_without_alt :: "document \<Rightarrow> int" where
  "images_without_alt doc = int (length (doc_images doc)) - int (length (images_with_alt doc))"

text \<open>The dictionary that the \<open>try\<close> block returns.\<close>

definition page_signals :: "document \<Rightarrow> (string \<times> pyval) list" where
  "page_signals doc =
     [(''meta_description'', opt_val (meta_description doc)),
      (''meta_desc_length'', VInt (meta_desc_length doc)),
      (''meta_desc_status'', VStr (meta_desc_status (meta_desc_length doc))),
      (''title_tag'', opt_val (title doc)),
      (''title_length'', VInt (title_length doc)),
      (''title_status'', VStr (title_status (title_length doc))),
      (''h1_count'', VInt (h1_count doc)),
      (''h1_status'', VStr (h1_status (h1_count doc))),
      (''h1_text'', VStrs (doc_h1 doc)),
      (''h2_count'', VInt (int (length (doc_h2 doc)))),
      (''h3_count'', VInt (int (length (doc_h3 doc)))),
      (''h4_count'', VInt (int (length (doc_h4 doc)))),
      (''word_count'', VInt (word_count doc)),
      (''content_status'', VStr (content_status (word_count doc))),
      (''images_total'', VInt (int (length (doc_images doc)))),
      (''images_without_alt'', VInt (images_without_alt doc)),
      (''crawl_success'', VBool True)]"

text \<open>The \<open>except\<close> branch.\<close>

definition crawl_failed :: "string \<Rightarrow> (string \<times> pyval) list" where
  "crawl_failed e = [(''crawl_success'', VBool False), (''error'', VStr e)]"

definition crawl_website_onpage :: "http \<Rightarrow> html_parser \<Rightarrow> string \<Rightarrow> (string \<times> pyval) list" where
  "crawl_website_onpage net html_parser domain =
     (case net (crawl_call domain) of
        Raised e \<Rightarrow> crawl_failed e
      | Response status_code reason response_url text \<Rightarrow>
          (case raise_for_status status_code reason response_url of
             Some e \<Rightarrow> crawl_failed e
           | None \<Rightarrow>
               (case html_parser text of
                  Inl e \<Rightarrow> crawl_failed e
                | Inr doc \<Rightarrow> page_signals doc)))"

section \<open>The site audit\<close>

text \<open>\<open>ISSUE_MAPPING\<close>: the table from issue identifier to issue name, in the order of the source.\<close>

definition ISSUE_MAPPING :: "(int \<times> string) list" where
  "ISSUE_MAPPING =
     [(1, ''5xx errors''),
      (2, ''4xx errors''),
      (3, ''Title tag is missing or empty''),
      (4, ''Blocked from crawling''),
      (6, ''Duplicate title tag''),
      (7, ''Duplicate content''),
      (8, ''Broken internal links''),
      (9, ''Pages not crawled''),
      (10, ''DNS resolution issue''),
      (11, (''We couldn'' @ [CHR 0x27] @ ''t open the page'' @ [CHR 0x27] @ ''s URL'')),
      (13, ''Broken internal images''),
      (15, ''Duplicate meta descriptions''),
      (16, ''Invalid robots.txt format''),
      (17, ''Invalid sitemap.xml format''),
      (18, ''Incorrect pages found in''),
      (19, ''www resolve issues''),
      (20, ''Viewport not configured''),
      (21, ''Large HTML page size''),
      (22, ''Missing canonical tags in AMP pages''),
      (26, ''Non-secure pages''),
      (27, ''Certificate Expiration''),
      (28, ''Old security protocol version''),
      (29, ''Certificate registered to incorrect''),
      (30, ''Issues with mixed content''),
      (32, ''Neither canonical URL nor 301 redirect from HTTP homepage''),
      (33, ''Redirect chains and loops''),
      (34, ''AMP Pages with HTML Issues''),
      (35, ''AMP Pages with Style and Layout''),
      (36, ''AMP Pages with Templating Issues''),
      (38, ''Broken canonical URLs''),
      (39, ''Multiple canonical URLs''),
      (40, ''Meta refresh redirects''),
      (41, ''Broken internal JavaScript and CSS''),
      (42, ''Insecure encryption algorithms''),
      (43, ''Sitemap file too large''),
      (44, ''Malformed links''),
      (45, ''Structured data that contains''),
      (46, ''Viewport width not set''),
      (111, ''Slow page load speed''),
      (12, ''Broken external links''),
      (14, ''Broken external images''),
      (31, ''Links lead to HTTP pages for HTTPS''),
      (101, ''Title element is too short''),
      (102, ''Title element is too long''),
      (103, ''Missing h1''),
      (104, ''Multiple h1 tags''),
      (105, ''Duplicate content in h1 and title''),
      (106, ''Missing meta description''),
      (108, ''Too many on-page links''),
      (109, ''Temporary redirects''),
      (110, ''Missing ALT attributes''),
      (112, ''Low text to HTML ratio''),
      (113, ''Too many URL parameters''),
      (114, ''Missing hreflang and lang attributes''),
      (115, ''Encoding not declared''),
      (116, ''Doctype not declared''),
      (117, ''Low word count''),
      (120, ''Incompatible plugins used''),
      (121, ''Frames used''),
      (122, ''Underscores in URL''),
      (123, ''Nofollow attributes in internal links''),
      (124, ''Sitemap.xml not specified in''),
      (125, ''Sitemap.xml not found''),
      (126, ''HTTPS encryption not used''),
      (127, ''No SNI support''),
      (128, ''HTTP URLs in sitemap.xml for HTTPS''),
      (129, ''Uncompressed pages''),
      (130, ''Disallowed internal resources''),
      (131, ''Uncompressed JavaScript and CSS''),
      (132, ''Uncached JavaScript and CSS files''),
      (133, ''Too large JavaScript and CSS total''),
      (134, ''Too many JavaScript and CSS files''),
      (135, ''Unminified JavaScript and CSS files''),
      (136, ''Warning - Too long URLs''),
      (137, ''Llms.txt not found''),
      (201, ''Too long URLs''),
      (202, ''Nofollow attributes in external links''),
      (203, ''Robots.txt not found''),
      (205, ''No HSTS support''),
      (206, ''Orphaned pages (Google Analytics)''),
      (207, ''Orphaned sitemap pages''),
      (208, ''Pages have high Document''),
      (209, ''Blocked by X-Robots-Tag: noindex HTTP header''),
      (210, ''Disallowed external resources''),
      (211, ''Broken external JavaScript and CSS''),
      (212, ''Page crawl depth''),
      (213, ''Pages with only one internal link''),
      (214, ''Permanent redirects''),
      (215, ''Resources formatted as page links''),
      (216, ''Links with no anchor text''),
      (217, ''Links with non-descriptive anchor''),
      (218, ''External pages or resources with 403 HTTP status code''),
      (219, ''Llms.txt has formatting issues''),
      (220, ''Too much content''),
      (221, ''Outdated content''),
      (222, ''Low semantic HTML usage''),
      (223, ''Content not optimized'')]"

text \<open>\<open>ISSUE_MAPPING.get(issue_id, f"Unknown Issue {issue_id}")\<close>\<close>

definition issue_name_of :: "int \<Rightarrow> string" where
  "issue_name_of iid =
     (case map_of ISSUE_MAPPING iid of
        Some name \<Rightarrow> name
      | None \<Rightarrow> ''Unknown Issue '' @ str_int iid)"

text \<open>
  The decoded snapshot response.  An entry of a section is an object with the keys \<open>id\<close>,
  \<open>count\<close> and \<open>delta\<close>; the response is an object with the keys \<open>snapshot_id\<close>, \<open>errors\<close>,
  \<open>warnings\<close> and \<open>notices\<close>.  \<open>None\<close> stands for a key that is not there.
\<close>

record entry =
  e_id :: "int option"
  e_count :: "int option"
  e_delta :: "int option"

record audit_data =
  ad_snapshot_id :: "string option"
  ad_errors :: "entry list option"
  ad_warnings :: "entry list option"
  ad_notices :: "entry list option"

text \<open>One element of \<open>issues_data\<close>.\<close>

record issue =
  issue_id :: int
  issue_name :: string
  severity :: string
  count :: int
  delta :: int

text \<open>\<open>str(KeyError(k))\<close>\<close>

definition key_error :: "string \<Rightarrow> string" where
  "key_error k = [CHR 0x27] @ k @ [CHR 0x27]"

text \<open>
  \<open>requests.get(...)\<close>, \<open>response.raise_for_status()\<close>, \<open>response.json()\<close>: the decoded
  body, or the description of the exception that one of the three raised.
\<close>

definition fetch_json :: "http \<Rightarrow> (string \<Rightarrow> string + 'd) \<Rightarrow> http_request \<Rightarrow> string + 'd" where
  "fetch_json net json req =
     (case net req of
        Raised e \<Rightarrow> Inl e
      | Response status_code reason response_url text \<Rightarrow>
          (case raise_for_status status_code reason response_url of
             Some e \<Rightarrow> Inl e
           | None \<Rightarrow> json text))"

text \<open>
  One of the three loops of \<open>get_all_issues_summary\<close>, with the section's label:
  \<^verbatim>\<open>
  for error in data['errors']:
      issue_id = error['id']
      count = error['count']
      if count > 0:
          issues_data.append({
              'issue_id': issue_id,
              'issue_name': ISSUE_MAPPING.get(issue_id, f"Unknown Issue {issue_id}"),
              'severity': 'Error',
              'count': count,
              'delta': error.get('delta', 0)
          })
  \<close>
\<close>

fun process_entries :: "string \<Rightarrow> entry list \<Rightarrow> issue list \<Rightarrow> string + issue list" where
  "process_entries label [] issues_data = Inr issues_data"
| "process_entries label (e # es) issues_data =
     (case e_id e of
        None \<Rightarrow> Inl (key_error ''id'')
      | Some iid \<Rightarrow>
          (case e_count e of
             None \<Rightarrow> Inl (key_error ''count'')
           | Some cnt \<Rightarrow>
               if cnt > 0
               then process_entries label es
                      (issues_data @
                        [\<lparr> issue_id = iid,
                           issue_name = issue_name_of iid,
                           severity = label,
                           count = cnt,
                           delta = (case e_delta e of None \<Rightarrow> 0 | Some d \<Rightarrow> d) \<rparr>])
               else process_entries label es issues_data))"

text \<open>\<open>if 'errors' in data: for error in data['errors']: ...\<close>\<close>

definition process_section ::
  "string \<Rightarrow> entry list option \<Rightarrow> issue list \<Rightarrow> string + issue list" where
  "process_section label section issues_data =
     (case section of
        None \<Rightarrow> Inr issues_data
      | Some es \<Rightarrow> process_entries label es issues_data)"

text \<open>The body of the \<open>try\<close> block from the decoded response on.\<close>

definition summary_of :: "audit_data \<Rightarrow> string + (issue list \<times> string option)" where
  "summary_of data =
     (let snapshot_id = ad_snapshot_id data in
      case process_section ''Error'' (ad_errors data) [] of
        Inl e \<Rightarrow> Inl e
      | Inr issues_data \<Rightarrow>
          (case process_section ''Warning'' (ad_warnings data) issues_data of
             Inl e \<Rightarrow> Inl e
           | Inr issues_data \<Rightarrow>
               (case process_section ''Notice'' (ad_notices data) issues_data of
                  Inl e \<Rightarrow> Inl e
                | Inr issues_data \<Rightarrow> Inr (issues_data, snapshot_id))))"

definition summary_call :: "string option \<Rightarrow> string \<Rightarrow> http_request" where
  "summary_call key project_id =
     \<lparr> req_url = SITE_AUDIT_URL @ ''/projects/'' @ project_id @ ''/siteaudit/snapshot'',
       req_params = [(''key'', key_param key)],
       req_headers = [],
       req_timeout = None,
       req_allow_redirects = True \<rparr>"

text \<open>
  \<^verbatim>\<open>
  def get_all_issues_summary(project_id=PROJECT_ID):
      url = f"{SITE_AUDIT_URL}/projects/{project_id}/siteaudit/snapshot"
      params = {"key": SEMRUSH_API_KEY}
      try:
          response = requests.get(url, params=params)
          response.raise_for_status()
          data = response.json()
          ...
          return issues_data, snapshot_id
      except Exception as e:
          print(f"Error fetching issues summary: {e}")
          return [], None
  \<close>
\<close>

definition get_all_issues_summary ::
  "http \<Rightarrow> (string \<Rightarrow> string + audit_data) \<Rightarrow> string option \<Rightarrow> string
     \<Rightarrow> issue list \<times> string option" where
  "get_all_issues_summary net json key project_id =
     (case fetch_json net json (summary_call key project_id) of
        Inl e \<Rightarrow> ([], None)
      | Inr data \<Rightarrow>
          (case summary_of data of
             Inl e \<Rightarrow> ([], None)
           | Inr result \<Rightarrow> result))"

text \<open>
  The decoded response for one page of issue details: the key \<open>data\<close> holds the page's
  records, the key \<open>total\<close> the number of records the provider reports for the issue.
\<close>

record 'a page_data =
  pd_data :: "'a list option"
  pd_total :: "int option"

text \<open>\<open>data.get('total', 0)\<close>\<close>

definition total_of :: "'a page_data \<Rightarrow> int" where
  "total_of data = (case pd_total data of None \<Rightarrow> 0 | Some t \<Rightarrow> t)"

definition issue_call ::
  "string option \<Rightarrow> string \<Rightarrow> string \<Rightarrow> int \<Rightarrow> int \<Rightarrow> nat \<Rightarrow> http_request" where
  "issue_call key project_id snapshot_id issue limit page =
     \<lparr> req_url = SITE_AUDIT_URL @ ''/projects/'' @ project_id @ ''/siteaudit/snapshot/''
                   @ snapshot_id @ ''/issue/'' @ str_int issue,
       req_params = [(''key'', key_param key), (''limit'', VInt limit), (''page'', VInt (int page))],
       req_headers = [],
       req_timeout = None,
       req_allow_redirects = True \<rparr>"

text \<open>
  The result of \<open>get_issue_details\<close>: the pair the function returns, and beside it the page
  numbers it has requested, in the order of the requests.
\<close>

record 'a details =
  det_pages :: "'a list"
  det_total :: int
  det_requested :: "nat list"

text \<open>
  \<^verbatim>\<open>
  while True:
      params['page'] = current_page
      response = requests.get(url, params=params)
      response.raise_for_status()
      data = response.json()
      if 'data' in data:
          pages_data = data['data']
          total_count = data.get('total', 0)
          if not pages_data:
              break
          all_pages.extend(pages_data)
          if len(all_pages) >= total_count:
              break
          current_page += 1
      else:
          break
  return all_pages, data.get('total', 0)
  \<close>
  with \<open>return [], 0\<close> in the \<open>except\<close> branch.  The loop has no bound of its own: a run that
  never leaves it is the value \<open>None\<close>.
\<close>

partial_function (option) details_loop ::
  "(nat \<Rightarrow> string + 'a page_data) \<Rightarrow> nat \<Rightarrow> 'a list \<Rightarrow> nat list \<Rightarrow> 'a details option" where
  "details_loop page_reply current_page all_pages requested =
     (case page_reply current_page of
        Inl e \<Rightarrow>
          Some \<lparr> det_pages = [], det_total = 0, det_requested = requested @ [current_page] \<rparr>
      | Inr data \<Rightarrow>
          (case pd_data data of
             None \<Rightarrow>
               Some \<lparr> det_pages = all_pages, det_total = total_of data,
                      det_requested = requested @ [current_page] \<rparr>
           | Some pages_data \<Rightarrow>
               if pages_data = []
               then Some \<lparr> det_pages = all_pages, det_total = total_of data,
                           det_requested = requested @ [current_page] \<rparr>
               else if int (length (all_pages @ pages_data)) \<ge> total_of data
               then Some \<lparr> det_pages = all_pages @ pages_data, det_total = total_of data,
                           det_requested = requested @ [current_page] \<rparr>
               else details_loop page_reply (current_page + 1) (all_pages @ pages_data)
                      (requested @ [current_page])))"

definition get_issue_details ::
  "http \<Rightarrow> (string \<Rightarrow> string + 'a page_data) \<Rightarrow> string option \<Rightarrow> string \<Rightarrow> string \<Rightarrow> int \<Rightarrow> int
     \<Rightarrow> 'a details option" where
  "get_issue_details net json key project_id snapshot_id issue limit =
     details_loop
       (\<lambda>page. fetch_json net json (issue_call key project_id snapshot_id issue limit page))
       1 [] []"

text \<open>
  The aggregator in the words of its description: one record per entry with a positive count,
  with the section's label as severity, the name from the table or \<open>Unknown Issue\<close> followed
  by the identifier, the entry's count, and the entry's delta or 0.  It is read only where
  the entry has an identifier and a count.
\<close>

definition issue_record :: "string \<Rightarrow> entry \<Rightarrow> issue" where
  "issue_record label e =
     \<lparr> issue_id = the (e_id e),
       issue_name =
         (case map_of ISSUE_MAPPING (the (e_id e)) of
            Some name \<Rightarrow> name
          | None \<Rightarrow> ''Unknown Issue '' @ str_int (the (e_id e))),
       severity = label,
       count = the (e_count e),
       delta = (case e_delta e of None \<Rightarrow> 0 | Some d \<Rightarrow> d) \<rparr>"

definition section_records :: "string \<Rightarrow> entry list option \<Rightarrow> issue list" where
  "section_records label section =
     (case section of
        None \<Rightarrow> []
      | Some es \<Rightarrow> map (issue_record label) (filter (\<lambda>e. the (e_count e) > 0) es))"

text \<open>All entries of a response, and what makes an entry complete.\<close>

definition section_entries :: "entry list option \<Rightarrow> entry list" where
  "section_entries section = (case section of None \<Rightarrow> [] | Some es \<Rightarrow> es)"

definition all_entries :: "audit_data \<Rightarrow> entry list" where
  "all_entries data =
     section_entries (ad_errors data) @ section_entries (ad_warnings data)
       @ section_entries (ad_notices data)"

definition complete :: "entry \<Rightarrow> bool" where
  "complete e = (e_id e \<noteq> None \<and> e_count e \<noteq> None)"

text \<open>
  The rank of a severity, as the sort key of \<open>generate_ai_recommendations\<close> has it:
  \<open>0 if x.get('severity') == 'Error' else 1 if x.get('severity') == 'Warning' else 2\<close>.
\<close>

definition severity_rank :: "string \<Rightarrow> nat" where
  "severity_rank s = (if s = ''Error'' then 0 else if s = ''Warning'' then 1 else 2)"

text \<open>
  The pagination in the words of its description.  A reply that raised, a reply without the
  key \<open>data\<close> and a reply with an empty \<open>data\<close> return zero records; \<open>collected f k\<close> is the
  running total after page \<open>k\<close>, the records of the pages 1 to \<open>k\<close> in the order of the
  requests; page \<open>k\<close> is the last when it returns zero records or the running total has
  reached the total that this page reports.
\<close>

definition page_records :: "string + 'a page_data \<Rightarrow> 'a list" where
  "page_records reply =
     (case reply of
        Inl e \<Rightarrow> []
      | Inr data \<Rightarrow> (case pd_data data of None \<Rightarrow> [] | Some pages_data \<Rightarrow> pages_data))"

definition page_total :: "string + 'a page_data \<Rightarrow> int" where
  "page_total reply = (case reply of Inl e \<Rightarrow> 0 | Inr data \<Rightarrow> total_of data)"

definition collected :: "(nat \<Rightarrow> string + 'a page_data) \<Rightarrow> nat \<Rightarrow> 'a list" where
  "collected page_reply k = concat (map (\<lambda>page. page_records (page_reply page)) [1..<Suc k])"

definition last_page :: "(nat \<Rightarrow> string + 'a page_data) \<Rightarrow> nat \<Rightarrow> bool" where
  "last_page page_reply k =
     (page_records (page_reply k) = [] \<or>
      int (length (collected page_reply k)) \<ge> page_total (page_reply k))"

definition answered :: "string + 'a page_data \<Rightarrow> bool" where
  "answered reply = (case reply of Inl e \<Rightarrow> False | Inr data \<Rightarrow> True)"

section \<open>Example inputs\<close>

text \<open>A provider's table whose only row is the domain \<open>terror.org\<close>.\<close>

definition lower_case_body :: string where
  "lower_case_body = ''Domain;Rank'' @ [newline] @ ''terror.org;5''"

text \<open>The HTML parser that returns the same document for every text.\<close>

definition parser_giving :: "document \<Rightarrow> html_parser" where
  "parser_giving doc = (\<lambda>text. Inr doc)"


text \<open>
  A page with a meta description of 155 characters, a title of 10, two level-one headings,
  five words of text and three images, of which one has a non-empty alt text.
\<close>

definition sample_page :: document where
  "sample_page =
     \<lparr> doc_meta_desc = Some (Some (replicate 155 CHR ''m'')),
       doc_title = Some (Some ''Short page''),
       doc_h1 = [''Welcome'', ''Again''],
       doc_h2 = [''News''],
       doc_h3 = [],
       doc_h4 = [],
       doc_text = ''Welcome  Again News and more'',
       doc_images = [Some ''logo'', None, Some []] \<rparr>"

text \<open>The JSON decoder that returns the same value for every text.\<close>

definition json_giving :: "'d \<Rightarrow> string \<Rightarrow> string + 'd" where
  "json_giving d = (\<lambda>text. Inr d)"

text \<open>
  The snapshot response
  \<open>{"snapshot_id":"S1","errors":[{"id":3,"count":5},{"id":999,"count":0}],
  "warnings":[{"id":101,"count":2,"delta":-1}]}\<close>.
\<close>

definition sample_audit :: audit_data where
  "sample_audit =
     \<lparr> ad_snapshot_id = Some ''S1'',
       ad_errors = Some [\<lparr> e_id = Some 3, e_count = Some 5, e_delta = None \<rparr>,
                         \<lparr> e_id = Some 999, e_count = Some 0, e_delta = None \<rparr>],
       ad_warnings = Some [\<lparr> e_id = Some 101, e_count = Some 2, e_delta = Some (- 1) \<rparr>],
       ad_notices = None \<rparr>"

text \<open>
  A snapshot response with all three sections, the notice with an identifier that the table
  does not have.
\<close>

definition mixed_audit :: audit_data where
  "mixed_audit =
     \<lparr> ad_snapshot_id = Some ''S2'',
       ad_errors = Some [\<lparr> e_id = Some 2, e_count = Some 7, e_delta = None \<rparr>,
                         \<lparr> e_id = Some 1, e_count = Some 4, e_delta = Some 1 \<rparr>],
       ad_warnings = Some [\<lparr> e_id = Some 103, e_count = Some 9, e_delta = None \<rparr>],
       ad_notices = Some [\<lparr> e_id = Some 9999, e_count = Some 1, e_delta = None \<rparr>] \<rparr>"

text \<open>
  A provider with 237 records for an issue, served in pages of 100: its reply carries the
  number of the requested page, and the decoder gives 100, 100 and 37 records (each record
  the number of its page) for the pages 1, 2 and 3, with the total 237.  Any other page
  does not decode.
\<close>

definition page_server :: http where
  "page_server req =
     (case dict_get (req_params req) ''page'' of
        Some (VInt p) \<Rightarrow> Response 200 ''OK'' (req_url req) (str_int p)
      | _ \<Rightarrow> Raised ''no page requested'')"

definition page_decoder :: "string \<Rightarrow> string + nat page_data" where
  "page_decoder body =
     (if body = ''1'' then Inr \<lparr> pd_data = Some (replicate 100 1), pd_total = Some 237 \<rparr>
      else if body = ''2'' then Inr \<lparr> pd_data = Some (replicate 100 2), pd_total = Some 237 \<rparr>
      else if body = ''3'' then Inr \<lparr> pd_data = Some (replicate 37 3), pd_total = Some 237 \<rparr>
      else Inl ''Expecting value'')"

section \<open>Facts about the string primitives\<close>

lemma py_split_not_Nil: "py_split sep s \<noteq> []"
  by (induction s) (auto split: list.splits)

lemma py_split_length: "0 < length (py_split sep s)"
  using py_split_not_Nil [of sep s] by simp

lemma py_join_split: "py_join sep (py_split sep s) = s"
proof (induction s)
  case Nil
  show ?case by simp
next
  case (Cons c cs)
  obtain r rs where rs: "py_split sep cs = r # rs"
    using py_split_not_Nil [of sep cs] by (cases "py_split sep cs") auto
  with Cons show ?case
    by (cases rs) auto
qed

lemma py_split_no_sep: "p \<in> set (py_split sep s) \<Longrightarrow> sep \<notin> set p"
proof (induction s arbitrary: p)
  case Nil
  then show ?case by simp
next
  case (Cons c cs)
  then show ?case
    by (auto split: if_splits list.splits)
qed

lemma map_of_update_fold:
  "map_of (foldl (\<lambda>d (k, v). AList.update k v d) d0 ps) = map_of d0 ++ map_of (rev ps)"
proof (induction ps arbitrary: d0)
  case Nil
  show ?case by simp
next
  case (Cons p ps)
  obtain k v where p: "p = (k, v)" by (cases p)
  have "map_of (AList.update k v d0) ++ map_of (rev ps) = map_of d0 ++ map_of (rev ps @ [(k, v)])"
    by (rule ext) (simp add: update_conv' map_add_def split: option.splits)
  with Cons p show ?case by simp
qed

lemma map_of_dict_of: "map_of (dict_of ps) = map_of (rev ps)"
  by (simp add: dict_of_def map_of_update_fold)

lemma dict_of_zip_distinct: "distinct hs \<Longrightarrow> dict_of (zip hs vs) = zip hs vs"
proof -
  have step: "distinct (map fst d0 @ hs) \<Longrightarrow>
      foldl (\<lambda>d (k, v). AList.update k v d) d0 (zip hs vs) = d0 @ zip hs vs" for d0
  proof (induction hs arbitrary: vs d0)
    case Nil
    show ?case by simp
  next
    case (Cons h hs)
    show ?case
    proof (cases vs)
      case Nil
      then show ?thesis by simp
    next
      case (Cons v vs')
      have fresh: "h \<notin> fst ` set d0"
        using Cons.prems by auto
      have upd: "AList.update h v d0 = d0 @ [(h, v)]"
        using fresh by (induction d0) auto
      have "distinct (map fst (d0 @ [(h, v)]) @ hs)"
        using Cons.prems by auto
      from Cons.IH [OF this] upd Cons show ?thesis by simp
    qed
  qed
  assume "distinct hs"
  then show ?thesis
    using step [of "[]"] by (simp add: dict_of_def)
qed

lemma text_lines_not_Nil: "text_lines text \<noteq> []"
  by (simp add: text_lines_def py_split_not_Nil)

section \<open>Claims about the flat-table parser\<close>

text \<open>
  C3.  \<open>parse_response\<close> is a total function of its input string: no operation in it can
  raise, the two indexed reads \<open>lines[0]\<close> and \<open>lines[1]\<close> happen only behind the length
  test.  With the lines of the input being the stripped text split at the newline character
  (never an empty list), it returns \<open>None\<close> when there are fewer than 2 lines; when there is
  exactly one data line it returns the single mapping \<open>dict(zip(header fields, data fields))\<close>,
  both split at the semicolon; and with N \<open>\<ge>\<close> 2 data lines it returns the N mappings in
  order, each data line zipped with the header on its own.
\<close>

theorem parse_response_cases:
  "text_lines text \<noteq> [] \<and>
   (length (text_lines text) < 2 \<longrightarrow> parse_response text = PNone) \<and>
   (\<forall>h d. text_lines text = [h, d] \<longrightarrow>
      parse_response text =
        PDict (dict_of (zip (py_split semicolon h) (py_split semicolon d)))) \<and>
   (\<forall>h ds. text_lines text = h # ds \<and> 2 \<le> length ds \<longrightarrow>
      parse_response text =
        PList (map (\<lambda>d. dict_of (zip (py_split semicolon h) (py_split semicolon d))) ds))"
proof (intro conjI allI impI)
  show "text_lines text \<noteq> []"
    by (rule text_lines_not_Nil)
next
  assume "length (text_lines text) < 2"
  then show "parse_response text = PNone"
    by (simp add: parse_response_def)
next
  fix h d
  assume "text_lines text = [h, d]"
  then show "parse_response text =
      PDict (dict_of (zip (py_split semicolon h) (py_split semicolon d)))"
    by (simp add: parse_response_def)
next
  fix h ds
  assume "text_lines text = h # ds \<and> 2 \<le> length ds"
  then show "parse_response text =
      PList (map (\<lambda>d. dict_of (zip (py_split semicolon h) (py_split semicolon d))) ds)"
    by (cases ds) (auto simp: parse_response_def Let_def)
qed

lemma text_lines_ex0: "text_lines ''Domain;Rank'' = [''Domain;Rank'']"
  by code_simp

lemma text_lines_ex1:
  "text_lines (''Domain;Rank'' @ [newline] @ ''a.org;5'' @ [newline]) = [''Domain;Rank'', ''a.org;5'']"
  by code_simp

lemma text_lines_ex2:
  "text_lines (''Domain;Rank'' @ [newline] @ ''a.org;5'' @ [newline] @ ''b.org;7;x'')
     = [''Domain;Rank'', ''a.org;5'', ''b.org;7;x'']"
  by code_simp

lemma fields_ex:
  "py_split semicolon ''Domain;Rank'' = [''Domain'', ''Rank'']"
  "py_split semicolon ''a.org;5'' = [''a.org'', ''5'']"
  "py_split semicolon ''b.org;7;x'' = [''b.org'', ''7'', ''x'']"
  by code_simp+

lemma dict_ex:
  "dict_of [(''Domain'', ''a.org''), (''Rank'', ''5'')] = [(''Domain'', ''a.org''), (''Rank'', ''5'')]"
  "dict_of [(''Domain'', ''b.org''), (''Rank'', ''7'')] = [(''Domain'', ''b.org''), (''Rank'', ''7'')]"
  by code_simp+

theorem parse_response_cases_witness:
  "parse_response ''Domain;Rank'' = PNone \<and>
   parse_response (''Domain;Rank'' @ [newline] @ ''a.org;5'' @ [newline])
     = PDict [(''Domain'', ''a.org''), (''Rank'', ''5'')] \<and>
   parse_response (''Domain;Rank'' @ [newline] @ ''a.org;5'' @ [newline] @ ''b.org;7;x'')
     = PList [[(''Domain'', ''a.org''), (''Rank'', ''5'')], [(''Domain'', ''b.org''), (''Rank'', ''7'')]]"
proof -
  let ?t1 = "''Domain;Rank'' @ [newline] @ ''a.org;5'' @ [newline]"
  let ?t2 = "''Domain;Rank'' @ [newline] @ ''a.org;5'' @ [newline] @ ''b.org;7;x''"
  let ?row = "\<lambda>h d. dict_of (zip (py_split semicolon h) (py_split semicolon d))"
  have none: "parse_response ''Domain;Rank'' = PNone"
    using parse_response_cases [of "''Domain;Rank''"] by (simp add: text_lines_ex0)
  have "\<forall>h d. text_lines ?t1 = [h, d] \<longrightarrow> parse_response ?t1 = PDict (?row h d)"
    using parse_response_cases [of ?t1] by blast
  then have "parse_response ?t1 = PDict (?row ''Domain;Rank'' ''a.org;5'')"
    using text_lines_ex1 by blast
  then have one: "parse_response ?t1 = PDict [(''Domain'', ''a.org''), (''Rank'', ''5'')]"
    by (simp only: fields_ex dict_ex zip.simps list.case)
  have "\<forall>h ds. text_lines ?t2 = h # ds \<and> 2 \<le> length ds \<longrightarrow>
      parse_response ?t2 = PList (map (?row h) ds)"
    using parse_response_cases [of ?t2] by blast
  moreover have "2 \<le> length [''a.org;5'', ''b.org;7;x'']"
    by simp
  ultimately have "parse_response ?t2 = PList (map (?row ''Domain;Rank'') [''a.org;5'', ''b.org;7;x''])"
    using text_lines_ex2 by blast
  then have many: "parse_response ?t2 =
      PList [[(''Domain'', ''a.org''), (''Rank'', ''5'')], [(''Domain'', ''b.org''), (''Rank'', ''7'')]]"
    by (simp only: fields_ex dict_ex zip.simps list.case list.map)
  from none one many show ?thesis by blast
qed

section \<open>Claims about the provider's flat-text interface\<close>

lemma map_eq_appendD:
  assumes "map f xs = ys @ zs"
  obtains us vs where "xs = us @ vs" and "map f us = ys" and "map f vs = zs"
proof
  show "xs = take (length ys) xs @ drop (length ys) xs" by simp
  show "map f (take (length ys) xs) = ys"
    using assms by (metis append_eq_conv_conj take_map)
  show "map f (drop (length ys) xs) = zs"
    using assms by (metis append_eq_conv_conj drop_map)
qed

lemma py_in_upper:
  "py_in needle (py_upper hay) \<longleftrightarrow> (\<exists>pre w suf. hay = pre @ w @ suf \<and> py_upper w = needle)"
proof
  assume "py_in needle (py_upper hay)"
  then obtain ps ss where "map upper_char hay = ps @ (needle @ ss)"
    unfolding py_in_def py_upper_def sublist_def by blast
  then obtain pre rest where h1: "hay = pre @ rest" and h2: "map upper_char rest = needle @ ss"
    by (rule map_eq_appendD)
  from h2 obtain w suf where "rest = w @ suf" and "map upper_char w = needle"
    by (rule map_eq_appendD)
  with h1 show "\<exists>pre w suf. hay = pre @ w @ suf \<and> py_upper w = needle"
    unfolding py_upper_def by blast
next
  assume "\<exists>pre w suf. hay = pre @ w @ suf \<and> py_upper w = needle"
  then obtain pre w suf where "hay = pre @ w @ suf" and "map upper_char w = needle"
    unfolding py_upper_def by blast
  then have "map upper_char hay = map upper_char pre @ needle @ map upper_char suf"
    by simp
  then show "py_in needle (py_upper hay)"
    unfolding py_in_def py_upper_def sublist_def by blast
qed

lemma server_replying_apply: "server_replying r req = r"
  by (simp add: server_replying_def)

lemma lower_case_body_parsed:
  "parse_response lower_case_body = PDict [(''Domain'', ''terror.org''), (''Rank'', ''5'')]"
  by code_simp

lemma lower_case_body_literal: "\<not> py_in ''ERROR'' lower_case_body"
  by code_simp

lemma lower_case_body_upper: "py_in ''ERROR'' (py_upper lower_case_body)"
  by code_simp

text \<open>
  C8 as stated fails.  The provider answers the report for the domain \<open>terror.org\<close> with
  status 200 and a two-line table.  The literal word ERROR is not in the body and the body
  parses to a mapping, yet \<open>make_request\<close> returns \<open>None\<close>: the test is made on the
  upper-cased body, where the domain name reads TERROR.ORG.
\<close>

theorem make_request_literal_counterexample:
  "\<not> py_in ''ERROR'' lower_case_body \<and>
   parse_response lower_case_body = PDict [(''Domain'', ''terror.org''), (''Rank'', ''5'')] \<and>
   make_request (server_replying (Response 200 ''OK'' BASE_URL lower_case_body)) None BASE_URL
       ''domain_rank'' [(''domain'', VStr ''terror.org''), (''database'', VStr ''us'')] = PNone"
proof -
  have "make_request (server_replying (Response 200 ''OK'' BASE_URL lower_case_body)) None BASE_URL
       ''domain_rank'' [(''domain'', VStr ''terror.org''), (''database'', VStr ''us'')] = PNone"
    using lower_case_body_upper by (simp add: make_request_def server_replying_apply)
  with lower_case_body_parsed lower_case_body_literal show ?thesis by blast
qed

text \<open>
  C8, amended.  \<open>make_request\<close> parses the body and returns the result exactly when the
  request raised nothing, the status is 200 and no piece of the body reads ERROR once it is
  upper-cased (the word in any mix of upper and lower case); in every other case it returns
  \<open>None\<close>.
\<close>

theorem make_request_result:
  "make_request net key url report_type kwargs =
     (case net (make_request_call key url report_type kwargs) of
        Raised e \<Rightarrow> PNone
      | Response status_code reason response_url text \<Rightarrow>
          if status_code = 200 \<and> (\<nexists>pre w suf. text = pre @ w @ suf \<and> py_upper w = ''ERROR'')
          then parse_response text
          else PNone)"
  by (simp only: py_in_upper [symmetric] make_request_def)

section \<open>Claims about the requests\<close>

text \<open>
  C7.  The two site-audit functions call \<open>requests.get(url, params=params)\<close> with no
  timeout: the request for the snapshot and every request for a page of issue details carry
  the library's default, \<open>None\<close>.  The flat-text provider call carries 30 and the page fetch
  carries 10.
\<close>

theorem site_audit_calls_timeout:
  "req_timeout (summary_call key project_id) = None \<and>
   req_timeout (issue_call key project_id snapshot_id issue limit page) = None \<and>
   req_timeout (make_request_call key url report_type kwargs) = Some 30 \<and>
   req_timeout (crawl_call domain) = Some 10"
  by (simp add: summary_call_def issue_call_def make_request_call_def crawl_call_def)

text \<open>
  C9.  The test for a scheme is \<open>domain.startswith('http')\<close>.  The domain \<open>httpbin.org\<close> has
  no scheme and begins with these four letters: it is requested as it stands, without
  \<open>https://\<close> in front, while \<open>example.com\<close> gets the scheme.
\<close>

theorem crawl_url_httpbin:
  "crawl_url ''httpbin.org'' = ''httpbin.org'' \<and>
   req_url (crawl_call ''httpbin.org'') = ''httpbin.org'' \<and>
   crawl_url ''example.com'' = ''https://example.com''"
  by (simp add: crawl_call_def crawl_url_def)

section \<open>Claims about the on-page crawler\<close>

lemma meta_desc_status_iff:
  "(meta_desc_status n = ''Good'' \<longleftrightarrow> 150 \<le> n \<and> n \<le> 160) \<and>
   (meta_desc_status n = ''Needs Fix'' \<longleftrightarrow> \<not> (150 \<le> n \<and> n \<le> 160))"
  by (simp add: meta_desc_status_def)

lemma title_status_iff:
  "(title_status n = ''Good'' \<longleftrightarrow> 50 \<le> n \<and> n \<le> 60) \<and>
   (title_status n = ''Needs Fix'' \<longleftrightarrow> \<not> (50 \<le> n \<and> n \<le> 60))"
  by (simp add: title_status_def)

lemma h1_status_iff:
  "0 \<le> n \<Longrightarrow>
   (h1_status n = ''Missing'' \<longleftrightarrow> n = 0) \<and>
   (h1_status n = ''Good'' \<longleftrightarrow> n = 1) \<and>
   (h1_status n = ''Multiple'' \<longleftrightarrow> n > 1)"
  by (auto simp: h1_status_def)

lemma content_status_iff:
  "(content_status w = ''Thin'' \<longleftrightarrow> w < 300) \<and>
   (content_status w = ''Moderate'' \<longleftrightarrow> 300 \<le> w \<and> w < 1000) \<and>
   (content_status w = ''Good'' \<longleftrightarrow> 1000 \<le> w)"
  by (auto simp: content_status_def)

lemma content_status_boundaries:
  "content_status 299 = ''Thin'' \<and> content_status 300 = ''Moderate'' \<and>
   content_status 999 = ''Moderate'' \<and> content_status 1000 = ''Good''"
  by (simp add: content_status_def)

lemma h1_count_nonneg: "0 \<le> h1_count doc"
  by (simp add: h1_count_def)

lemma page_signals_status_fields:
  "dict_get (page_signals doc) ''meta_desc_length'' = Some (VInt (meta_desc_length doc))"
  "dict_get (page_signals doc) ''meta_desc_status'' = Some (VStr (meta_desc_status (meta_desc_length doc)))"
  "dict_get (page_signals doc) ''title_length'' = Some (VInt (title_length doc))"
  "dict_get (page_signals doc) ''title_status'' = Some (VStr (title_status (title_length doc)))"
  "dict_get (page_signals doc) ''h1_count'' = Some (VInt (h1_count doc))"
  "dict_get (page_signals doc) ''h1_status'' = Some (VStr (h1_status (h1_count doc)))"
  "dict_get (page_signals doc) ''word_count'' = Some (VInt (word_count doc))"
  "dict_get (page_signals doc) ''content_status'' = Some (VStr (content_status (word_count doc)))"
  by (simp_all add: page_signals_def dict_get_def)

lemma page_signals_image_fields:
  "dict_get (page_signals doc) ''images_total'' = Some (VInt (int (length (doc_images doc))))"
  "dict_get (page_signals doc) ''images_without_alt'' = Some (VInt (images_without_alt doc))"
  by (simp_all add: page_signals_def dict_get_def)

lemma page_signals_success: "dict_get (page_signals doc) ''crawl_success'' = Some (VBool True)"
  by (simp add: page_signals_def dict_get_def)

lemma crawl_failed_not_success: "dict_get (crawl_failed e) ''crawl_success'' \<noteq> Some (VBool True)"
  by (simp add: crawl_failed_def dict_get_def)

lemma crawl_total:
  "(\<exists>doc. crawl_website_onpage net html_parser domain = page_signals doc) \<or>
   (\<exists>e. crawl_website_onpage net html_parser domain = crawl_failed e)"
  by (auto simp: crawl_website_onpage_def split: http_result.splits option.splits sum.splits)

lemma crawl_success_document:
  assumes "dict_get (crawl_website_onpage net html_parser domain) ''crawl_success'' = Some (VBool True)"
  obtains doc where "crawl_website_onpage net html_parser domain = page_signals doc"
  using assms crawl_failed_not_success crawl_total [of net html_parser domain] by metis

lemma crawl_parsed:
  assumes "net (crawl_call domain) = Response status_code reason response_url body"
    and "raise_for_status status_code reason response_url = None"
    and "html_parser body = Inr doc"
  shows "crawl_website_onpage net html_parser domain = page_signals doc"
  using assms by (simp add: crawl_website_onpage_def)

lemma parser_giving_apply: "parser_giving doc text = Inr doc"
  by (simp add: parser_giving_def)


lemma raise_for_status_200: "raise_for_status 200 reason response_url = None"
  by (simp add: raise_for_status_def)

lemma sample_crawl:
  "crawl_website_onpage (server_replying (Response 200 ''OK'' ''https://example.com/'' ''<html>'')) (parser_giving sample_page)
     ''example.com'' = page_signals sample_page"
  by (rule crawl_parsed [where body = "''<html>''" and status_code = 200 and reason = "''OK''"
        and response_url = "''https://example.com/''"])
     (simp_all add: server_replying_apply raise_for_status_200 parser_giving_apply)

text \<open>
  C4.  In the result of every successful crawl, the four status fields are the threshold
  functions of the length and count fields beside them: the meta description is Good exactly
  from 150 to 160 characters and Needs Fix otherwise, the title is Good exactly from 50 to 60
  and Needs Fix otherwise, the H1 status is Missing, Good or Multiple exactly for a count of 0,
  of 1, of more than 1, and the content is Thin below 300 words, Moderate from 300 to 999 and
  Good from 1000 on.
\<close>

theorem crawl_status_thresholds:
  assumes "dict_get (crawl_website_onpage net html_parser domain) ''crawl_success'' = Some (VBool True)"
  shows
   "(let r = crawl_website_onpage net html_parser domain;
         ml = int_field r ''meta_desc_length''; ms = str_field r ''meta_desc_status'';
         tl = int_field r ''title_length''; ts = str_field r ''title_status'';
         hc = int_field r ''h1_count''; hs = str_field r ''h1_status'';
         wc = int_field r ''word_count''; cs = str_field r ''content_status''
     in dict_get r ''meta_desc_length'' = Some (VInt ml) \<and>
        dict_get r ''meta_desc_status'' = Some (VStr ms) \<and>
        (ms = ''Good'' \<longleftrightarrow> 150 \<le> ml \<and> ml \<le> 160) \<and>
        (ms = ''Needs Fix'' \<longleftrightarrow> \<not> (150 \<le> ml \<and> ml \<le> 160)) \<and>
        dict_get r ''title_length'' = Some (VInt tl) \<and>
        dict_get r ''title_status'' = Some (VStr ts) \<and>
        (ts = ''Good'' \<longleftrightarrow> 50 \<le> tl \<and> tl \<le> 60) \<and>
        (ts = ''Needs Fix'' \<longleftrightarrow> \<not> (50 \<le> tl \<and> tl \<le> 60)) \<and>
        dict_get r ''h1_count'' = Some (VInt hc) \<and>
        dict_get r ''h1_status'' = Some (VStr hs) \<and>
        0 \<le> hc \<and>
        (hs = ''Missing'' \<longleftrightarrow> hc = 0) \<and>
        (hs = ''Good'' \<longleftrightarrow> hc = 1) \<and>
        (hs = ''Multiple'' \<longleftrightarrow> hc > 1) \<and>
        dict_get r ''word_count'' = Some (VInt wc) \<and>
        dict_get r ''content_status'' = Some (VStr cs) \<and>
        (cs = ''Thin'' \<longleftrightarrow> wc < 300) \<and>
        (cs = ''Moderate'' \<longleftrightarrow> 300 \<le> wc \<and> wc < 1000) \<and>
        (cs = ''Good'' \<longleftrightarrow> 1000 \<le> wc))"
proof -
  from assms obtain doc where r: "crawl_website_onpage net html_parser domain = page_signals doc"
    by (rule crawl_success_document)
  have f: "int_field (page_signals doc) ''meta_desc_length'' = meta_desc_length doc"
    "str_field (page_signals doc) ''meta_desc_status'' = meta_desc_status (meta_desc_length doc)"
    "int_field (page_signals doc) ''title_length'' = title_length doc"
    "str_field (page_signals doc) ''title_status'' = title_status (title_length doc)"
    "int_field (page_signals doc) ''h1_count'' = h1_count doc"
    "str_field (page_signals doc) ''h1_status'' = h1_status (h1_count doc)"
    "int_field (page_signals doc) ''word_count'' = word_count doc"
    "str_field (page_signals doc) ''content_status'' = content_status (word_count doc)"
    by (simp_all only: int_field_def str_field_def page_signals_status_fields option.case pyval.case)
  show ?thesis
    unfolding r Let_def f
    using meta_desc_status_iff [of "meta_desc_length doc"] title_status_iff [of "title_length doc"]
      h1_status_iff [OF h1_count_nonneg, of doc] content_status_iff [of "word_count doc"]
      h1_count_nonneg [of doc]
    by (simp only: page_signals_status_fields simp_thms)
qed

lemma sample_lengths:
  "meta_desc_length sample_page = 155"
  "title_length sample_page = 10"
  "h1_count sample_page = 2"
  "word_count sample_page = 5"
  by (simp_all add: meta_desc_length_def meta_description_def title_length_def title_def
      h1_count_def word_count_def sample_page_def truthy_def isspace_def)

theorem crawl_status_thresholds_witness:
  "dict_get (crawl_website_onpage (server_replying (Response 200 ''OK'' ''https://example.com/'' ''<html>''))
       (parser_giving sample_page) ''example.com'') ''crawl_success'' = Some (VBool True) \<and>
   dict_get (crawl_website_onpage (server_replying (Response 200 ''OK'' ''https://example.com/'' ''<html>''))
       (parser_giving sample_page) ''example.com'') ''meta_desc_status'' = Some (VStr ''Good'') \<and>
   dict_get (crawl_website_onpage (server_replying (Response 200 ''OK'' ''https://example.com/'' ''<html>''))
       (parser_giving sample_page) ''example.com'') ''title_status'' = Some (VStr ''Needs Fix'') \<and>
   dict_get (crawl_website_onpage (server_replying (Response 200 ''OK'' ''https://example.com/'' ''<html>''))
       (parser_giving sample_page) ''example.com'') ''h1_status'' = Some (VStr ''Multiple'') \<and>
   dict_get (crawl_website_onpage (server_replying (Response 200 ''OK'' ''https://example.com/'' ''<html>''))
       (parser_giving sample_page) ''example.com'') ''content_status'' = Some (VStr ''Thin'')"
proof -
  define r where "r = crawl_website_onpage (server_replying (Response 200 ''OK'' ''https://example.com/'' ''<html>''))
       (parser_giving sample_page) ''example.com''"
  have ok: "dict_get r ''crawl_success'' = Some (VBool True)"
    unfolding r_def by (simp only: sample_crawl page_signals_success)
  have "dict_get r ''meta_desc_length'' = Some (VInt 155)"
    "dict_get r ''title_length'' = Some (VInt 10)"
    "dict_get r ''h1_count'' = Some (VInt 2)"
    "dict_get r ''word_count'' = Some (VInt 5)"
    unfolding r_def by (simp_all only: sample_crawl page_signals_status_fields sample_lengths)
  then have len: "int_field r ''meta_desc_length'' = 155" "int_field r ''title_length'' = 10"
    "int_field r ''h1_count'' = 2" "int_field r ''word_count'' = 5"
    by (simp_all add: int_field_def)
  have th: "dict_get r ''meta_desc_status'' = Some (VStr (str_field r ''meta_desc_status''))"
    "str_field r ''meta_desc_status'' = ''Good'' \<longleftrightarrow>
       150 \<le> int_field r ''meta_desc_length'' \<and> int_field r ''meta_desc_length'' \<le> 160"
    "dict_get r ''title_status'' = Some (VStr (str_field r ''title_status''))"
    "str_field r ''title_status'' = ''Needs Fix'' \<longleftrightarrow>
       \<not> (50 \<le> int_field r ''title_length'' \<and> int_field r ''title_length'' \<le> 60)"
    "dict_get r ''h1_status'' = Some (VStr (str_field r ''h1_status''))"
    "str_field r ''h1_status'' = ''Multiple'' \<longleftrightarrow> int_field r ''h1_count'' > 1"
    "dict_get r ''content_status'' = Some (VStr (str_field r ''content_status''))"
    "str_field r ''content_status'' = ''Thin'' \<longleftrightarrow> int_field r ''word_count'' < 300"
    using crawl_status_thresholds [OF ok [unfolded r_def]]
    unfolding Let_def r_def [symmetric] by blast+
  have "str_field r ''meta_desc_status'' = ''Good''" "str_field r ''title_status'' = ''Needs Fix''"
    "str_field r ''h1_status'' = ''Multiple''" "str_field r ''content_status'' = ''Thin''"
    using th(2,4,6,8) unfolding len by simp_all
  with th(1,3,5,7) ok show ?thesis
    unfolding r_def by simp
qed



lemma raise_for_status_nonempty:
  "raise_for_status status_code reason response_url = Some msg \<Longrightarrow> msg \<noteq> []"
  by (auto simp: raise_for_status_def split: if_splits)





text \<open>
  C6.  For a page that was fetched and parsed, \<open>images_total\<close> is the number of images of the
  document and \<open>images_without_alt\<close> is that number less the number of images whose \<open>alt\<close>
  attribute is there and not empty; it lies between 0 and \<open>images_total\<close>, and the two kinds
  of images add up to \<open>images_total\<close>.
\<close>

theorem crawl_image_counts:
  assumes "net (crawl_call domain) = Response status_code reason response_url body"
    and "raise_for_status status_code reason response_url = None"
    and "html_parser body = Inr doc"
    and "n_images = int (length (doc_images doc))"
    and "n_with_alt = int (length (filter (\<lambda>a. \<exists>s. a = Some s \<and> s \<noteq> []) (doc_images doc)))"
  shows
   "dict_get (crawl_website_onpage net html_parser domain) ''images_total'' = Some (VInt n_images) \<and>
    dict_get (crawl_website_onpage net html_parser domain) ''images_without_alt''
      = Some (VInt (n_images - n_with_alt)) \<and>
    0 \<le> n_images - n_with_alt \<and> n_images - n_with_alt \<le> n_images \<and> (n_images - n_with_alt) + n_with_alt = n_images"
proof -
  have r: "crawl_website_onpage net html_parser domain = page_signals doc"
    using assms(1-3) by (rule crawl_parsed)
  have "truthy = (\<lambda>a. \<exists>s. a = Some s \<and> s \<noteq> [])"
    by (rule ext) (simp add: truthy_def split: option.splits)
  then have w: "images_without_alt doc = n_images - n_with_alt"
    by (simp add: images_without_alt_def images_with_alt_def assms(4,5))
  have "length (filter (\<lambda>a. \<exists>s. a = Some s \<and> s \<noteq> []) (doc_images doc)) \<le> length (doc_images doc)"
    by (rule length_filter_le)
  then have "n_with_alt \<le> n_images" and "0 \<le> n_with_alt"
    by (simp_all add: assms(4,5))
  then show ?thesis
    by (simp add: r page_signals_image_fields w assms(4))
qed

theorem crawl_image_counts_witness:
  "dict_get (crawl_website_onpage (server_replying (Response 200 ''OK'' ''https://example.com/'' ''<html>''))
       (parser_giving sample_page) ''example.com'') ''images_total'' = Some (VInt 3) \<and>
   dict_get (crawl_website_onpage (server_replying (Response 200 ''OK'' ''https://example.com/'' ''<html>''))
       (parser_giving sample_page) ''example.com'') ''images_without_alt'' = Some (VInt 2)"
proof -
  have a: "server_replying (Response 200 ''OK'' ''https://example.com/'' ''<html>'') (crawl_call ''example.com'')
      = Response 200 ''OK'' ''https://example.com/'' ''<html>''"
    by (rule server_replying_apply)
  have b: "raise_for_status 200 ''OK'' ''https://example.com/'' = None"
    by (rule raise_for_status_200)
  have c: "parser_giving sample_page ''<html>'' = Inr sample_page"
    by (rule parser_giving_apply)
  have d: "(3::int) = int (length (doc_images sample_page))"
    by (simp add: sample_page_def)
  have e: "(1::int) = int (length (filter (\<lambda>a. \<exists>s. a = Some s \<and> s \<noteq> []) (doc_images sample_page)))"
    by (simp add: sample_page_def)
  from crawl_image_counts [where net = "server_replying (Response 200 ''OK'' ''https://example.com/'' ''<html>'')"
      and html_parser = "parser_giving sample_page" and domain = "''example.com''", OF a b c d e]
  show ?thesis by simp
qed

section \<open>Claims about the issue summary\<close>

lemma issue_name_of_eq:
  "issue_name_of i =
     (case map_of ISSUE_MAPPING i of Some name \<Rightarrow> name | None \<Rightarrow> ''Unknown Issue '' @ str_int i)"
  by (simp add: issue_name_of_def)

lemma process_entries_complete:
  "\<forall>e \<in> set es. complete e \<Longrightarrow>
   process_entries label es acc
     = Inr (acc @ map (issue_record label) (filter (\<lambda>e. the (e_count e) > 0) es))"
proof (induction es arbitrary: acc)
  case Nil
  show ?case by simp
next
  case (Cons e es)
  from Cons.prems obtain i c where ic: "e_id e = Some i" "e_count e = Some c"
    by (auto simp: complete_def)
  from Cons.prems have rest: "\<forall>e \<in> set es. complete e" by simp
  show ?case
    by (simp add: ic Cons.IH [OF rest] issue_record_def issue_name_of_eq split: option.splits)
qed

lemma process_entries_incomplete:
  "\<exists>e \<in> set es. \<not> complete e \<Longrightarrow> \<exists>msg. process_entries label es acc = Inl msg"
proof (induction es arbitrary: acc)
  case Nil
  then show ?case by simp
next
  case (Cons e es)
  show ?case
  proof (cases "complete e")
    case False
    then show ?thesis
      by (auto simp: complete_def split: option.splits)
  next
    case True
    with Cons.prems have "\<exists>e \<in> set es. \<not> complete e" by simp
    from Cons.IH [OF this] True show ?thesis
      by (auto simp: complete_def split: option.splits)
  qed
qed

lemma process_section_complete:
  "\<forall>e \<in> set (section_entries sec). complete e \<Longrightarrow>
   process_section label sec acc = Inr (acc @ section_records label sec)"
  by (cases sec)
     (simp_all add: process_section_def section_records_def section_entries_def
        process_entries_complete)

lemma process_section_incomplete:
  "\<exists>e \<in> set (section_entries sec). \<not> complete e \<Longrightarrow>
   \<exists>msg. process_section label sec acc = Inl msg"
  by (cases sec)
     (simp_all add: process_section_def section_entries_def process_entries_incomplete)

lemma process_section_total:
  "(\<exists>msg. process_section label sec acc = Inl msg) \<or>
   process_section label sec acc = Inr (acc @ section_records label sec)"
  using process_section_complete [of sec label acc]
    process_section_incomplete [of sec label acc] by blast

lemma summary_of_complete:
  assumes "\<forall>e \<in> set (all_entries data). complete e"
  shows "summary_of data =
     Inr (section_records ''Error'' (ad_errors data) @ section_records ''Warning'' (ad_warnings data)
            @ section_records ''Notice'' (ad_notices data), ad_snapshot_id data)"
proof -
  from assms have "\<forall>e \<in> set (section_entries (ad_errors data)). complete e"
    and "\<forall>e \<in> set (section_entries (ad_warnings data)). complete e"
    and "\<forall>e \<in> set (section_entries (ad_notices data)). complete e"
    by (simp_all add: all_entries_def)
  then show ?thesis
    by (simp add: summary_of_def process_section_complete)
qed

lemma summary_of_incomplete:
  assumes "\<exists>e \<in> set (all_entries data). \<not> complete e"
  shows "\<exists>msg. summary_of data = Inl msg"
proof -
  from assms consider
      "\<exists>e \<in> set (section_entries (ad_errors data)). \<not> complete e"
    | "\<exists>e \<in> set (section_entries (ad_warnings data)). \<not> complete e"
    | "\<exists>e \<in> set (section_entries (ad_notices data)). \<not> complete e"
    by (auto simp: all_entries_def)
  then show ?thesis
  proof cases
    case 1
    from process_section_incomplete [OF this, of "''Error''" "[]"] show ?thesis
      by (auto simp: summary_of_def)
  next
    case 2
    show ?thesis
    proof (cases "process_section ''Error'' (ad_errors data) []")
      case (Inl msg)
      then show ?thesis by (simp add: summary_of_def)
    next
      case (Inr a)
      from process_section_incomplete [OF 2, of "''Warning''" a]
      obtain msg where "process_section ''Warning'' (ad_warnings data) a = Inl msg" by blast
      with Inr show ?thesis by (simp add: summary_of_def)
    qed
  next
    case 3
    show ?thesis
    proof (cases "process_section ''Error'' (ad_errors data) []")
      case (Inl msg)
      then show ?thesis by (simp add: summary_of_def)
    next
      case a: (Inr a)
      show ?thesis
      proof (cases "process_section ''Warning'' (ad_warnings data) a")
        case (Inl msg)
        with a show ?thesis by (simp add: summary_of_def)
      next
        case (Inr b)
        from process_section_incomplete [OF 3, of "''Notice''" b]
        obtain msg where "process_section ''Notice'' (ad_notices data) b = Inl msg" by blast
        with a Inr show ?thesis by (simp add: summary_of_def)
      qed
    qed
  qed
qed

lemma get_all_issues_summary_complete:
  assumes "fetch_json net json (summary_call key project_id) = Inr data"
    and "\<forall>e \<in> set (all_entries data). complete e"
  shows "get_all_issues_summary net json key project_id =
     (section_records ''Error'' (ad_errors data) @ section_records ''Warning'' (ad_warnings data)
        @ section_records ''Notice'' (ad_notices data), ad_snapshot_id data)"
  using assms(1) summary_of_complete [OF assms(2)] by (simp add: get_all_issues_summary_def)

lemma fetch_json_sample:
  "fetch_json (server_replying (Response 200 ''OK'' response_url body)) (json_giving d) req = Inr d"
  by (simp add: fetch_json_def server_replying_apply raise_for_status_200 json_giving_def)

lemma fetch_json_raised: "fetch_json (server_replying (Raised e)) json req = Inl e"
  by (simp add: fetch_json_def server_replying_apply)

lemma sample_audit_complete: "\<forall>e \<in> set (all_entries sample_audit). complete e"
  by (simp add: all_entries_def section_entries_def sample_audit_def complete_def)

lemma sample_audit_records:
  "section_records ''Error'' (ad_errors sample_audit)
     = [\<lparr> issue_id = 3, issue_name = ''Title tag is missing or empty'', severity = ''Error'',
          count = 5, delta = 0 \<rparr>]"
  "section_records ''Warning'' (ad_warnings sample_audit)
     = [\<lparr> issue_id = 101, issue_name = ''Title element is too short'', severity = ''Warning'',
          count = 2, delta = - 1 \<rparr>]"
  "section_records ''Notice'' (ad_notices sample_audit) = []"
  by (simp_all add: section_records_def sample_audit_def issue_record_def ISSUE_MAPPING_def)

text \<open>
  C1.  When the snapshot request succeeds and every entry has an identifier and a count, the
  result is the list of records of the errors, the warnings and the notices, one for each
  entry with a positive count and none for the others, with the section's label, the name from
  the table or \<open>Unknown Issue\<close> with the identifier, the entry's count and the entry's delta
  or 0, beside the snapshot identifier.  When the request, the status check or the JSON
  decoder raises, and when an entry lacks its identifier or its count, the result is the empty
  list and \<open>None\<close>.
\<close>

theorem issues_summary_records:
  "(\<forall>data. fetch_json net json (summary_call key project_id) = Inr data \<and>
       (\<forall>e \<in> set (all_entries data). complete e) \<longrightarrow>
       get_all_issues_summary net json key project_id =
         (section_records ''Error'' (ad_errors data) @ section_records ''Warning'' (ad_warnings data)
            @ section_records ''Notice'' (ad_notices data), ad_snapshot_id data)) \<and>
   (\<forall>data. fetch_json net json (summary_call key project_id) = Inr data \<and>
       (\<exists>e \<in> set (all_entries data). \<not> complete e) \<longrightarrow>
       get_all_issues_summary net json key project_id = ([], None)) \<and>
   (\<forall>msg. fetch_json net json (summary_call key project_id) = Inl msg \<longrightarrow>
       get_all_issues_summary net json key project_id = ([], None))"
proof (intro conjI allI impI)
  fix data
  assume "fetch_json net json (summary_call key project_id) = Inr data \<and>
      (\<forall>e \<in> set (all_entries data). complete e)"
  then show "get_all_issues_summary net json key project_id =
      (section_records ''Error'' (ad_errors data) @ section_records ''Warning'' (ad_warnings data)
         @ section_records ''Notice'' (ad_notices data), ad_snapshot_id data)"
    using get_all_issues_summary_complete by blast
next
  fix data
  assume a: "fetch_json net json (summary_call key project_id) = Inr data \<and>
      (\<exists>e \<in> set (all_entries data). \<not> complete e)"
  then obtain msg where "summary_of data = Inl msg"
    using summary_of_incomplete by blast
  with a show "get_all_issues_summary net json key project_id = ([], None)"
    by (simp add: get_all_issues_summary_def)
next
  fix msg
  assume "fetch_json net json (summary_call key project_id) = Inl msg"
  then show "get_all_issues_summary net json key project_id = ([], None)"
    by (simp add: get_all_issues_summary_def)
qed

theorem issues_summary_records_witness:
  "get_all_issues_summary (server_replying (Response 200 ''OK'' SITE_AUDIT_URL ''{}'')) (json_giving sample_audit)
       None ''26460775''
     = ([\<lparr> issue_id = 3, issue_name = ''Title tag is missing or empty'', severity = ''Error'',
           count = 5, delta = 0 \<rparr>,
         \<lparr> issue_id = 101, issue_name = ''Title element is too short'', severity = ''Warning'',
           count = 2, delta = - 1 \<rparr>], Some ''S1'') \<and>
   get_all_issues_summary (server_replying (Raised ''Connection refused'')) (json_giving sample_audit)
       None ''26460775'' = ([], None)"
proof -
  let ?ok = "server_replying (Response 200 ''OK'' SITE_AUDIT_URL ''{}'')"
  let ?down = "server_replying (Raised ''Connection refused'')"
  let ?json = "json_giving sample_audit"
  let ?call = "summary_call None ''26460775''"
  have "fetch_json ?ok ?json ?call = Inr sample_audit \<and>
      (\<forall>e \<in> set (all_entries sample_audit). complete e)"
    by (rule conjI [OF fetch_json_sample sample_audit_complete])
  with issues_summary_records [of ?ok ?json None "''26460775''"]
  have "get_all_issues_summary ?ok ?json None ''26460775'' =
      (section_records ''Error'' (ad_errors sample_audit)
         @ section_records ''Warning'' (ad_warnings sample_audit)
         @ section_records ''Notice'' (ad_notices sample_audit), ad_snapshot_id sample_audit)"
    by blast
  then have a: "get_all_issues_summary ?ok ?json None ''26460775''
     = ([\<lparr> issue_id = 3, issue_name = ''Title tag is missing or empty'', severity = ''Error'',
           count = 5, delta = 0 \<rparr>,
         \<lparr> issue_id = 101, issue_name = ''Title element is too short'', severity = ''Warning'',
           count = 2, delta = - 1 \<rparr>], Some ''S1'')"
    by (simp add: sample_audit_records) (simp add: sample_audit_def)
  have "fetch_json ?down ?json ?call = Inl ''Connection refused''"
    by (rule fetch_json_raised)
  with issues_summary_records [of ?down ?json None "''26460775''"]
  have b: "get_all_issues_summary ?down ?json None ''26460775'' = ([], None)"
    by blast
  from a b show ?thesis by blast
qed

lemma severity_section_records: "i \<in> set (section_records label sec) \<Longrightarrow> severity i = label"
  by (cases sec) (auto simp: section_records_def issue_record_def)

lemma filter_section_records_same:
  "filter (\<lambda>i. severity i = label) (section_records label sec) = section_records label sec"
  by (simp add: severity_section_records)

lemma filter_section_records_other:
  "label' \<noteq> label \<Longrightarrow> filter (\<lambda>i. severity i = label') (section_records label sec) = []"
  by (auto simp: filter_empty_conv dest: severity_section_records)

lemma rank_section_records:
  "r \<in> set (map (\<lambda>i. severity_rank (severity i)) (section_records label sec)) \<Longrightarrow>
   r = severity_rank label"
  by (auto dest: severity_section_records)

lemma sorted_constant: "(\<forall>x \<in> set xs. x = c) \<Longrightarrow> sorted xs"
  by (induction xs) auto

lemma sorted_three:
  assumes "\<forall>x \<in> set xs. x = (0::nat)" and "\<forall>x \<in> set ys. x = 1" and "\<forall>x \<in> set zs. x = 2"
  shows "sorted (xs @ ys @ zs)"
proof -
  have "sorted xs" "sorted ys" "sorted zs"
    using assms by (blast intro: sorted_constant)+
  moreover have "\<forall>x \<in> set ys. \<forall>y \<in> set zs. x \<le> y"
  proof (intro ballI)
    fix x y
    assume "x \<in> set ys" and "y \<in> set zs"
    with assms(2,3) have "x = 1" and "y = 2" by blast+
    then show "x \<le> y" by simp
  qed
  moreover have "\<forall>x \<in> set xs. \<forall>y \<in> set ys \<union> set zs. x \<le> y"
  proof (intro ballI)
    fix x y
    assume "x \<in> set xs"
    with assms(1) have "x = 0" by blast
    then show "x \<le> y" by simp
  qed
  ultimately show ?thesis
    by (simp add: sorted_append)
qed

text \<open>
  C10.  In the list of a successful summary, the rank of the severity (Error first, Warning
  second, Notice last) never goes down from an element to a later one, and the elements of
  each severity are the records of that section, in the order of the section's entries.
\<close>

theorem issues_summary_order:
  assumes "fetch_json net json (summary_call key project_id) = Inr data"
    and "\<forall>e \<in> set (all_entries data). complete e"
    and "issues = fst (get_all_issues_summary net json key project_id)"
  shows
   "(\<forall>i j. i < j \<and> j < length issues \<longrightarrow>
       severity_rank (severity (issues ! i)) \<le> severity_rank (severity (issues ! j))) \<and>
    filter (\<lambda>i. severity i = ''Error'') issues = section_records ''Error'' (ad_errors data) \<and>
    filter (\<lambda>i. severity i = ''Warning'') issues = section_records ''Warning'' (ad_warnings data) \<and>
    filter (\<lambda>i. severity i = ''Notice'') issues = section_records ''Notice'' (ad_notices data)"
proof -
  let ?E = "section_records ''Error'' (ad_errors data)"
  let ?W = "section_records ''Warning'' (ad_warnings data)"
  let ?N = "section_records ''Notice'' (ad_notices data)"
  let ?rank = "\<lambda>i. severity_rank (severity i)"
  have issues: "issues = ?E @ ?W @ ?N"
    using get_all_issues_summary_complete [OF assms(1,2)] assms(3) by simp
  have rk: "severity_rank ''Error'' = 0" "severity_rank ''Warning'' = 1" "severity_rank ''Notice'' = 2"
    by (simp_all add: severity_rank_def)
  have rE: "\<forall>r \<in> set (map ?rank ?E). r = 0"
  proof
    fix r
    assume "r \<in> set (map ?rank ?E)"
    then have "r = severity_rank ''Error''" by (rule rank_section_records)
    then show "r = 0" by (simp only: rk)
  qed
  have rW: "\<forall>r \<in> set (map ?rank ?W). r = 1"
  proof
    fix r
    assume "r \<in> set (map ?rank ?W)"
    then have "r = severity_rank ''Warning''" by (rule rank_section_records)
    then show "r = 1" by (simp only: rk)
  qed
  have rN: "\<forall>r \<in> set (map ?rank ?N). r = 2"
  proof
    fix r
    assume "r \<in> set (map ?rank ?N)"
    then have "r = severity_rank ''Notice''" by (rule rank_section_records)
    then show "r = 2" by (simp only: rk)
  qed
  have "sorted (map ?rank issues)"
    unfolding issues map_append using rE rW rN by (rule sorted_three)
  then have order: "\<forall>i j. i < j \<and> j < length issues \<longrightarrow> ?rank (issues ! i) \<le> ?rank (issues ! j)"
    by (auto simp: sorted_iff_nth_mono_less)
  have "filter (\<lambda>i. severity i = ''Error'') issues = ?E"
    "filter (\<lambda>i. severity i = ''Warning'') issues = ?W"
    "filter (\<lambda>i. severity i = ''Notice'') issues = ?N"
    unfolding issues by (simp_all add: filter_section_records_same filter_section_records_other)
  with order show ?thesis by blast
qed

lemma mixed_audit_complete: "\<forall>e \<in> set (all_entries mixed_audit). complete e"
  by (simp add: all_entries_def section_entries_def mixed_audit_def complete_def)

lemma str_int_9999: "str_int 9999 = ''9999''"
  by (simp add: str_int_def str_nat.simps digit_char_def)

lemma mixed_audit_records:
  "section_records ''Error'' (ad_errors mixed_audit)
     = [\<lparr> issue_id = 2, issue_name = ''4xx errors'', severity = ''Error'', count = 7, delta = 0 \<rparr>,
        \<lparr> issue_id = 1, issue_name = ''5xx errors'', severity = ''Error'', count = 4, delta = 1 \<rparr>]"
  "section_records ''Warning'' (ad_warnings mixed_audit)
     = [\<lparr> issue_id = 103, issue_name = ''Missing h1'', severity = ''Warning'', count = 9, delta = 0 \<rparr>]"
  "section_records ''Notice'' (ad_notices mixed_audit)
     = [\<lparr> issue_id = 9999, issue_name = ''Unknown Issue 9999'', severity = ''Notice'', count = 1,
          delta = 0 \<rparr>]"
  by (simp_all add: section_records_def mixed_audit_def issue_record_def ISSUE_MAPPING_def
      str_int_9999)

theorem issues_summary_order_witness:
  "filter (\<lambda>i. severity i = ''Error'')
     (fst (get_all_issues_summary (server_replying (Response 200 ''OK'' SITE_AUDIT_URL ''{}''))
        (json_giving mixed_audit) None ''26460775''))
     = [\<lparr> issue_id = 2, issue_name = ''4xx errors'', severity = ''Error'', count = 7, delta = 0 \<rparr>,
        \<lparr> issue_id = 1, issue_name = ''5xx errors'', severity = ''Error'', count = 4, delta = 1 \<rparr>] \<and>
   filter (\<lambda>i. severity i = ''Notice'')
     (fst (get_all_issues_summary (server_replying (Response 200 ''OK'' SITE_AUDIT_URL ''{}''))
        (json_giving mixed_audit) None ''26460775''))
     = [\<lparr> issue_id = 9999, issue_name = ''Unknown Issue 9999'', severity = ''Notice'', count = 1,
          delta = 0 \<rparr>] \<and>
   severity_rank (severity (fst (get_all_issues_summary (server_replying (Response 200 ''OK'' SITE_AUDIT_URL ''{}''))
        (json_giving mixed_audit) None ''26460775'') ! 0))
     \<le> severity_rank (severity (fst (get_all_issues_summary (server_replying (Response 200 ''OK'' SITE_AUDIT_URL ''{}''))
        (json_giving mixed_audit) None ''26460775'') ! 3))"
proof -
  define issues where "issues = fst (get_all_issues_summary (server_replying (Response 200 ''OK'' SITE_AUDIT_URL ''{}''))
        (json_giving mixed_audit) None ''26460775'')"
  have f: "fetch_json (server_replying (Response 200 ''OK'' SITE_AUDIT_URL ''{}'')) (json_giving mixed_audit)
      (summary_call None ''26460775'') = Inr mixed_audit"
    by (rule fetch_json_sample)
  note th = issues_summary_order [OF f mixed_audit_complete issues_def]
  have len: "length issues = 4"
    unfolding issues_def get_all_issues_summary_complete [OF f mixed_audit_complete]
    by (simp add: mixed_audit_records)
  from th have "(0::nat) < 3 \<and> 3 < length issues \<longrightarrow>
      severity_rank (severity (issues ! 0)) \<le> severity_rank (severity (issues ! 3))"
    by blast
  with len have "severity_rank (severity (issues ! 0)) \<le> severity_rank (severity (issues ! 3))"
    by simp
  moreover from th have "filter (\<lambda>i. severity i = ''Error'') issues
      = section_records ''Error'' (ad_errors mixed_audit)"
    and "filter (\<lambda>i. severity i = ''Notice'') issues
      = section_records ''Notice'' (ad_notices mixed_audit)"
    by blast+
  ultimately show ?thesis
    unfolding issues_def [symmetric] by (simp only: mixed_audit_records simp_thms)
qed

section \<open>Claims about the issue details\<close>

lemma collected_step:
  "1 \<le> k \<Longrightarrow> collected f k = collected f (k - 1) @ page_records (f k)"
  by (cases k) (simp_all add: collected_def)

lemma collected_0: "collected f 0 = []"
  by (simp add: collected_def)

lemma details_loop_last:
  assumes "1 \<le> cur" and "answered (page_reply cur)" and "last_page page_reply cur"
    and "all_pages = collected page_reply (cur - 1)"
  shows "details_loop page_reply cur all_pages requested =
     Some \<lparr> det_pages = collected page_reply cur, det_total = page_total (page_reply cur),
            det_requested = requested @ [cur] \<rparr>"
proof -
  from assms(2) obtain data where d: "page_reply cur = Inr data"
    by (cases "page_reply cur") (simp_all add: answered_def)
  have c: "collected page_reply cur = all_pages @ page_records (page_reply cur)"
    using collected_step [OF assms(1)] assms(4) by simp
  show ?thesis
  proof (cases "pd_data data")
    case None
    with d c show ?thesis
      by (subst details_loop.simps) (simp add: page_records_def page_total_def)
  next
    case (Some pages_data)
    show ?thesis
    proof (cases "pages_data = []")
      case True
      with Some d c show ?thesis
        by (subst details_loop.simps) (simp add: page_records_def page_total_def)
    next
      case False
      with Some d have "page_records (page_reply cur) \<noteq> []"
        by (simp add: page_records_def)
      with assms(3) have "int (length (collected page_reply cur)) \<ge> page_total (page_reply cur)"
        by (simp add: last_page_def)
      with False Some d c show ?thesis
        by (subst details_loop.simps) (simp add: page_records_def page_total_def)
    qed
  qed
qed

lemma details_loop_next:
  assumes "1 \<le> cur" and "answered (page_reply cur)" and "\<not> last_page page_reply cur"
    and "all_pages = collected page_reply (cur - 1)"
  shows "details_loop page_reply cur all_pages requested =
     details_loop page_reply (cur + 1) (collected page_reply cur) (requested @ [cur])"
proof -
  from assms(2) obtain data where d: "page_reply cur = Inr data"
    by (cases "page_reply cur") (simp_all add: answered_def)
  have c: "collected page_reply cur = all_pages @ page_records (page_reply cur)"
    using collected_step [OF assms(1)] assms(4) by simp
  from assms(3) have ne: "page_records (page_reply cur) \<noteq> []"
    and lt: "\<not> int (length (collected page_reply cur)) \<ge> page_total (page_reply cur)"
    by (simp_all add: last_page_def)
  from ne d obtain pages_data where p: "pd_data data = Some pages_data" "pages_data \<noteq> []"
    by (cases "pd_data data") (simp_all add: page_records_def)
  with d c lt show ?thesis
    by (subst details_loop.simps) (simp add: page_records_def page_total_def)
qed

lemma details_loop_failed:
  "page_reply cur = Inl e \<Longrightarrow>
   details_loop page_reply cur all_pages requested =
     Some \<lparr> det_pages = [], det_total = 0, det_requested = requested @ [cur] \<rparr>"
  by (subst details_loop.simps) simp

lemma details_loop_run:
  assumes "1 \<le> cur" and "cur \<le> n"
    and "\<forall>k. cur \<le> k \<and> k \<le> n \<longrightarrow> answered (page_reply k)"
    and "\<forall>k. cur \<le> k \<and> k < n \<longrightarrow> \<not> last_page page_reply k"
    and "last_page page_reply n"
    and "all_pages = collected page_reply (cur - 1)"
  shows "details_loop page_reply cur all_pages requested =
     Some \<lparr> det_pages = collected page_reply n, det_total = page_total (page_reply n),
            det_requested = requested @ [cur..<Suc n] \<rparr>"
  using assms
proof (induction "n - cur" arbitrary: cur all_pages requested)
  case 0
  then have "cur = n" by simp
  with 0 details_loop_last [of n page_reply all_pages requested] show ?case
    by simp
next
  case (Suc d)
  then have lt: "cur < n" by simp
  with Suc.prems have a: "answered (page_reply cur)" and nl: "\<not> last_page page_reply cur"
    by simp_all
  have step: "details_loop page_reply cur all_pages requested =
      details_loop page_reply (cur + 1) (collected page_reply cur) (requested @ [cur])"
    using Suc.prems(1) a nl Suc.prems(6) by (rule details_loop_next)
  have "details_loop page_reply (cur + 1) (collected page_reply cur) (requested @ [cur]) =
      Some \<lparr> det_pages = collected page_reply n, det_total = page_total (page_reply n),
             det_requested = (requested @ [cur]) @ [cur + 1..<Suc n] \<rparr>"
  proof (rule Suc.hyps(1))
    show "d = n - (cur + 1)" using Suc.hyps(2) by simp
    show "1 \<le> cur + 1" by simp
    show "cur + 1 \<le> n" using lt by simp
    show "\<forall>k. cur + 1 \<le> k \<and> k \<le> n \<longrightarrow> answered (page_reply k)"
      using Suc.prems(3) by simp
    show "\<forall>k. cur + 1 \<le> k \<and> k < n \<longrightarrow> \<not> last_page page_reply k"
      using Suc.prems(4) by simp
    show "last_page page_reply n" by (rule Suc.prems(5))
    show "collected page_reply cur = collected page_reply (cur + 1 - 1)" by simp
  qed
  moreover have "[cur..<Suc n] = cur # [cur + 1..<Suc n]"
    using lt by (simp add: upt_conv_Cons)
  ultimately show ?case
    using step by simp
qed

text \<open>
  C2.  Let the provider answer the requests for the pages 1 to \<open>n\<close>, and let \<open>n\<close> be the
  first page that returns zero records or with which the running total reaches the total the
  page reports.  Then \<open>get_issue_details\<close> returns; it has requested the pages 1, 2, ...,
  \<open>n\<close> in this order and no other page; and it returns the records of these pages, one page
  after the other, with the total that page \<open>n\<close> reports.
\<close>

theorem issue_details_pages:
  assumes "page_reply =
      (\<lambda>page. fetch_json net json (issue_call key project_id snapshot_id issue limit page))"
    and "1 \<le> n"
    and "\<forall>k. 1 \<le> k \<and> k \<le> n \<longrightarrow> answered (page_reply k)"
    and "\<forall>k. 1 \<le> k \<and> k < n \<longrightarrow> \<not> last_page page_reply k"
    and "last_page page_reply n"
  shows "get_issue_details net json key project_id snapshot_id issue limit =
     Some \<lparr> det_pages = collected page_reply n, det_total = page_total (page_reply n),
            det_requested = [1..<Suc n] \<rparr>"
proof -
  have "details_loop page_reply 1 [] [] =
     Some \<lparr> det_pages = collected page_reply n, det_total = page_total (page_reply n),
            det_requested = [] @ [1..<Suc n] \<rparr>"
    using _ assms(2-5)
  proof (rule details_loop_run)
    show "(1::nat) \<le> 1" by simp
    show "[] = collected page_reply (1 - 1)" by (simp add: collected_0)
  qed
  then show ?thesis
    by (simp add: get_issue_details_def assms(1))
qed

lemma page_server_replies:
  "fetch_json page_server page_decoder (issue_call None ''26460775'' ''S1'' 3 100 1)
     = Inr \<lparr> pd_data = Some (replicate 100 1), pd_total = Some 237 \<rparr>"
  "fetch_json page_server page_decoder (issue_call None ''26460775'' ''S1'' 3 100 2)
     = Inr \<lparr> pd_data = Some (replicate 100 2), pd_total = Some 237 \<rparr>"
  "fetch_json page_server page_decoder (issue_call None ''26460775'' ''S1'' 3 100 3)
     = Inr \<lparr> pd_data = Some (replicate 37 3), pd_total = Some 237 \<rparr>"
  by (simp_all add: fetch_json_def page_server_def issue_call_def dict_get_def
      raise_for_status_200 page_decoder_def str_int_def str_nat.simps digit_char_def)

lemma upto_three: "1 \<le> k \<and> k \<le> 3 \<Longrightarrow> k = 1 \<or> k = 2 \<or> k = (3::nat)"
  by arith

lemma pages_upto: "[1..<Suc 1] = [1]" "[1..<Suc 2] = [1, 2]" "[1..<Suc 3] = [1, 2, 3]"
  by (simp_all add: upt_rec)

theorem issue_details_pages_witness:
  "get_issue_details page_server page_decoder None ''26460775'' ''S1'' 3 100 =
     Some \<lparr> det_pages = replicate 100 1 @ replicate 100 2 @ replicate 37 3, det_total = 237,
            det_requested = [1, 2, 3] \<rparr> \<and>
   length (replicate 100 (1::nat) @ replicate 100 2 @ replicate 37 3) = 237"
proof -
  define f where "f = (\<lambda>page. fetch_json page_server page_decoder
      (issue_call None ''26460775'' ''S1'' 3 100 page))"
  have r: "f 1 = Inr \<lparr> pd_data = Some (replicate 100 1), pd_total = Some 237 \<rparr>"
    "f 2 = Inr \<lparr> pd_data = Some (replicate 100 2), pd_total = Some 237 \<rparr>"
    "f 3 = Inr \<lparr> pd_data = Some (replicate 37 3), pd_total = Some 237 \<rparr>"
    unfolding f_def by (rule page_server_replies)+
  have rec: "page_records (f 1) = replicate 100 1" "page_records (f 2) = replicate 100 2"
    "page_records (f 3) = replicate 37 3"
    unfolding page_records_def r by simp_all
  have tot: "page_total (f 1) = 237" "page_total (f 2) = 237" "page_total (f 3) = 237"
    unfolding page_total_def total_of_def r by simp_all
  have col: "collected f 1 = replicate 100 1"
    "collected f 2 = replicate 100 1 @ replicate 100 2"
    "collected f 3 = replicate 100 1 @ replicate 100 2 @ replicate 37 3"
    unfolding collected_def pages_upto by (simp_all only: list.map concat.simps rec append_Nil2)
  have a: "answered (f 1)" "answered (f 2)" "answered (f 3)"
    unfolding answered_def r by simp_all
  have answered: "\<forall>k. 1 \<le> k \<and> k \<le> 3 \<longrightarrow> answered (f k)"
  proof (intro allI impI)
    fix k :: nat
    assume "1 \<le> k \<and> k \<le> 3"
    then have "k = 1 \<or> k = 2 \<or> k = 3" by (rule upto_three)
    with a show "answered (f k)" by blast
  qed
  have l1: "\<not> last_page f 1" and l2: "\<not> last_page f 2" and l3: "last_page f 3"
    unfolding last_page_def rec tot col by simp_all
  have more: "\<forall>k. 1 \<le> k \<and> k < 3 \<longrightarrow> \<not> last_page f k"
  proof (intro allI impI)
    fix k :: nat
    assume "1 \<le> k \<and> k < 3"
    then have "k = 1 \<or> k = 2" by arith
    with l1 l2 show "\<not> last_page f k" by blast
  qed
  have "(1::nat) \<le> 3" by simp
  from issue_details_pages [OF f_def this answered more l3]
  have "get_issue_details page_server page_decoder None ''26460775'' ''S1'' 3 100 =
     Some \<lparr> det_pages = collected f 3, det_total = page_total (f 3), det_requested = [1..<Suc 3] \<rparr>" .
  then have "get_issue_details page_server page_decoder None ''26460775'' ''S1'' 3 100 =
     Some \<lparr> det_pages = replicate 100 1 @ replicate 100 2 @ replicate 37 3, det_total = 237,
            det_requested = [1, 2, 3] \<rparr>"
    by (simp only: col tot pages_upto)
  moreover have "length (replicate 100 (1::nat) @ replicate 100 2 @ replicate 37 3) = 237"
    by simp
  ultimately show ?thesis by blast
qed

end
